theory Spec2Isabelle
  imports
    Main
    "HOL-Library.Sublist"
    "HOL-Library.Char_ord"
    "HOL-Library.List_Lexorder"
    "HOL-Library.Product_Lexorder"
begin

section \<open>Text\<close>

text \<open>
  The content processor works on Python strings. A string is modelled as a \<open>string\<close>,
  a list of characters with the codes 0 to 255: the first 256 code points of Unicode,
  that is ASCII and the Latin-1 supplement. On these \<open>str.lower\<close>, the word characters
  of the pattern \<open>\w\<close> and the white space of \<open>\s\<close> and \<open>str.strip\<close> are written out as
  the library has them. Strings are compared as Python compares them, character by
  character in the order of the codes, a proper prefix being smaller.
\<close>

text \<open>
  The characters \<open>str.lower\<close> changes: \<open>A\<close> to \<open>Z\<close>, and the Latin-1 capitals 0xC0 to
  0xDE without the multiplication sign 0xD7. Each goes to the character 32 codes up.
\<close>

definition is_upper :: "char \<Rightarrow> bool" where
  "is_upper c \<longleftrightarrow>
     (CHR ''A'' \<le> c \<and> c \<le> CHR ''Z'') \<or> (CHR 0xC0 \<le> c \<and> c \<le> CHR 0xD6) \<or>
     (CHR 0xD8 \<le> c \<and> c \<le> CHR 0xDE)"

definition lower_char :: "char \<Rightarrow> char" where
  "lower_char c = (if is_upper c then char_of (of_char c + (32::nat)) else c)"

text \<open>\<open>s.lower()\<close>\<close>

definition lower :: "string \<Rightarrow> string" where
  "lower s = map lower_char s"

text \<open>
  \<open>keyword in text\<close> on two strings is containment as a contiguous substring, which is
  \<^const>\<open>sublist\<close>: \<open>sublist k t\<close> holds when \<open>t = p @ k @ s\<close> for some \<open>p\<close> and \<open>s\<close>.
\<close>

definition str_in :: "string \<Rightarrow> string \<Rightarrow> bool" where
  "str_in keyword text = sublist keyword text"

section \<open>The article record\<close>

text \<open>
  An article is a Python dictionary with string keys. Every key may be absent, so every
  field is an option; the enriched fields \<open>relevance_score\<close>, \<open>priority\<close>, \<open>summary\<close>
  and \<open>processed_date\<close> are absent on a raw record and written by \<open>process_articles\<close>.
\<close>

record article =
  title :: "string option"
  content :: "string option"
  url :: "string option"
  source :: "string option"
  date :: "string option"
  hash :: "string option"
  relevance_score :: "int option"
  priority :: "string option"
  summary :: "string option"
  processed_date :: "string option"

text \<open>\<open>article.get(key, '')\<close>: the empty string stands for an absent key.\<close>

fun get_str :: "string option \<Rightarrow> string" where
  "get_str None = []"
| "get_str (Some s) = s"

text \<open>
  The text every keyword is looked up in: \<open>f"{title} {content}"\<close> on the lower-cased
  title and content, that is the title, one space, the content.
\<close>

definition lower_title :: "article \<Rightarrow> string" where
  "lower_title a = lower (get_str (title a))"

definition lower_content :: "article \<Rightarrow> string" where
  "lower_content a = lower (get_str (content a))"

definition combined_text :: "article \<Rightarrow> string" where
  "combined_text a = lower_title a @ '' '' @ lower_content a"

section \<open>Keyword tiers\<close>

definition high_priority :: "string list" where
  "high_priority =
    [''artificial intelligence'', ''machine learning'', ''deep learning'',
     ''neural network'', ''large language model'', ''llm'', ''gpt'',
     ''transformer'', ''generative ai'', ''chatbot'', ''openai'',
     ''anthropic'', ''google ai'', ''microsoft ai'', ''meta ai'',
     ''deepmind'', ''hugging face'', ''stability ai'']"

definition medium_priority :: "string list" where
  "medium_priority =
    [''automation'', ''computer vision'', ''natural language'',
     ''nlp'', ''ai model'', ''algorithm'', ''data science'',
     ''tensorflow'', ''pytorch'', ''keras'', ''scikit-learn'',
     ''ai startup'', ''ai funding'', ''ai ethics'', ''ai regulation'']"

definition tech_context :: "string list" where
  "tech_context =
    [''tech'', ''technology'', ''software'', ''startup'',
     ''funding'', ''vc'', ''venture capital'', ''investment'',
     ''api'', ''platform'', ''cloud'', ''saas'']"

text \<open>\<open>self.ai_keywords.values()\<close>, in the order the dictionary was written.\<close>

definition ai_keywords_values :: "string list list" where
  "ai_keywords_values = [high_priority, medium_priority, tech_context]"

section \<open>Relevance score\<close>

text \<open>
  \<open>_calculate_relevance_score\<close>: three loops over the tiers, each updating a running
  score. A loop is a \<^const>\<open>fold\<close> of its body over the tier, left to right.
\<close>

definition high_step :: "string \<Rightarrow> string \<Rightarrow> string \<Rightarrow> int \<Rightarrow> int" where
  "high_step title_l combined keyword score =
     (if str_in keyword combined
      then (if str_in keyword title_l then score + 3 + 2 else score + 3)
      else score)"

definition medium_step :: "string \<Rightarrow> string \<Rightarrow> string \<Rightarrow> int \<Rightarrow> int" where
  "medium_step title_l combined keyword score =
     (if str_in keyword combined
      then (if str_in keyword title_l then score + 2 + 1 else score + 2)
      else score)"

definition tech_step :: "string \<Rightarrow> string \<Rightarrow> int \<Rightarrow> int" where
  "tech_step combined keyword tech_score =
     (if str_in keyword combined \<and> tech_score < 3 then tech_score + 1 else tech_score)"

definition calculate_relevance_score :: "article \<Rightarrow> int" where
  "calculate_relevance_score a =
     (let title_l = lower_title a;
          combined = combined_text a;
          score = fold (high_step title_l combined) high_priority 0;
          score = fold (medium_step title_l combined) medium_priority score;
          tech_score = fold (tech_step combined) tech_context 0
      in score + tech_score)"

section \<open>Priority\<close>

definition critical_terms :: "string list" where
  "critical_terms =
    [''breakthrough'', ''major announcement'', ''new model'',
     ''gpt-5'', ''gpt-4'', ''claude'', ''gemini'', ''llama'',
     ''acquisition'', ''merger'', ''funding round'', ''ipo'',
     ''partnership'', ''collaboration'', ''investment'']"

definition high_priority_terms :: "string list" where
  "high_priority_terms =
    [''launch'', ''release'', ''unveil'', ''introduce'',
     ''upgrade'', ''improvement'', ''feature'', ''update'',
     ''research'', ''study'', ''paper'', ''findings'']"

text \<open>\<open>any(term in combined_text for term in terms)\<close>\<close>

definition any_term_in :: "string list \<Rightarrow> string \<Rightarrow> bool" where
  "any_term_in terms text = list_ex (\<lambda>term. str_in term text) terms"

text \<open>\<open>_determine_priority\<close>: four tests in the order of the source, each returning.\<close>

definition determine_priority :: "article \<Rightarrow> int \<Rightarrow> string" where
  "determine_priority a score =
     (let combined = combined_text a in
      if score \<ge> 10 then ''critical''
      else if any_term_in critical_terms combined then ''critical''
      else if score \<ge> 6 \<or> any_term_in high_priority_terms combined then ''high''
      else if score \<ge> 4 then ''medium''
      else ''low'')"

section \<open>Summary\<close>

text \<open>
  White space, for \<open>\s\<close> and for \<open>str.strip\<close>: the space, the controls 0x09 to 0x0D and
  0x1C to 0x1F, the next-line control 0x85 and the no-break space 0xA0.
\<close>

definition is_space :: "char \<Rightarrow> bool" where
  "is_space c \<longleftrightarrow> c \<in> set [CHR '' '', CHR 0x09, CHR 0x0A, CHR 0x0B, CHR 0x0C, CHR 0x0D,
                            CHR 0x1C, CHR 0x1D, CHR 0x1E, CHR 0x1F, CHR 0x85, CHR 0xA0]"

text \<open>\<open>s.strip()\<close>\<close>

definition strip :: "string \<Rightarrow> string" where
  "strip s = rev (dropWhile is_space (rev (dropWhile is_space s)))"

text \<open>\<open>re.sub(r'\s+', ' ', s)\<close>: every maximal run of white space becomes one space.\<close>

function collapse_spaces :: "string \<Rightarrow> string" where
  "collapse_spaces [] = []"
| "collapse_spaces (c # cs) =
     (if is_space c then CHR '' '' # collapse_spaces (dropWhile is_space cs)
      else c # collapse_spaces cs)"
  by pat_completeness auto
termination
  by (relation "measure length") (auto simp: less_Suc_eq_le length_dropWhile_le)

definition is_sentence_end :: "char \<Rightarrow> bool" where
  "is_sentence_end c \<longleftrightarrow> c = CHR ''.'' \<or> c = CHR ''!'' \<or> c = CHR ''?''"

text \<open>
  \<open>re.split(r'[.!?]+', s)\<close>: the pieces between the maximal runs of sentence marks, an
  empty piece included where a run starts or ends the string. \<open>piece\<close> holds the
  characters of the current piece, last one first.
\<close>

function split_sentences :: "string \<Rightarrow> string \<Rightarrow> string list" where
  "split_sentences piece [] = [rev piece]"
| "split_sentences piece (c # cs) =
     (if is_sentence_end c
      then rev piece # split_sentences [] (dropWhile is_sentence_end cs)
      else split_sentences (c # piece) cs)"
  by pat_completeness auto
termination
  by (relation "measure (\<lambda>(piece, s). length s)") (auto simp: less_Suc_eq_le length_dropWhile_le)

text \<open>The loop over the sentences; \<open>break\<close> returns what has been collected.\<close>

fun summary_loop :: "string list \<Rightarrow> string \<Rightarrow> nat \<Rightarrow> nat \<Rightarrow> string" where
  "summary_loop [] summary_acc char_count sentence_count = summary_acc"
| "summary_loop (sentence # rest) summary_acc char_count sentence_count =
     (let sentence = strip sentence in
      if sentence = [] then summary_loop rest summary_acc char_count sentence_count
      else if char_count + length sentence > 200 \<or> sentence_count \<ge> 3 then summary_acc
      else summary_loop rest (summary_acc @ sentence @ ''. '')
             (char_count + length sentence) (sentence_count + 1))"

definition generate_summary :: "string \<Rightarrow> string" where
  "generate_summary content_s =
     (if content_s = [] then []
      else (let content_s = strip (collapse_spaces content_s);
                sentences = split_sentences [] content_s
            in strip (summary_loop sentences [] 0 0)))"

section \<open>The main pass\<close>

datatype error = KeyError | OverflowError

text \<open>\<open>not article_hash\<close>: the key is absent or holds the empty string.\<close>

fun falsy :: "string option \<Rightarrow> bool" where
  "falsy None = True"
| "falsy (Some s) = (s = [])"

text \<open>
  \<open>_is_duplicate\<close>. The digest \<open>hashlib.md5(s.encode()).hexdigest()\<close> is a function of
  the library and a parameter \<open>md5\<close> of the model. The article is returned with the
  hash the function may have written into it.
\<close>

definition is_duplicate :: "(string \<Rightarrow> string) \<Rightarrow> article \<Rightarrow> string set \<Rightarrow> bool \<times> article" where
  "is_duplicate md5 a seen_hashes =
     (if falsy (hash a)
      then (let content_s = get_str (title a) @ get_str (content a);
                article_hash = md5 content_s
            in (article_hash \<in> seen_hashes, a\<lparr>hash := Some article_hash\<rparr>))
      else (get_str (hash a) \<in> seen_hashes, a))"

text \<open>
  The loop of \<open>process_articles\<close>. Its state is the list of accepted articles, the set
  \<open>seen_hashes\<close> of the processor and the number of times the clock has been read;
  \<open>clock n\<close> is the text \<open>datetime.now().isoformat()\<close> gives at its \<open>n\<close>-th reading.
  \<open>article['hash']\<close> raises \<open>KeyError\<close> on an absent key.
\<close>

fun process_loop ::
  "(string \<Rightarrow> string) \<Rightarrow> (nat \<Rightarrow> string) \<Rightarrow> article list \<Rightarrow>
   article list \<times> string set \<times> nat \<Rightarrow> error + (article list \<times> string set \<times> nat)" where
  "process_loop md5 clock [] st = Inr st"
| "process_loop md5 clock (a # rest) (processed, seen_hashes, ticks) =
     (let (dup, a) = is_duplicate md5 a seen_hashes in
      if dup then process_loop md5 clock rest (processed, seen_hashes, ticks)
      else
        (let score = calculate_relevance_score a in
         if score \<ge> 2 then
           (let a = a\<lparr>relevance_score := Some score\<rparr>;
                a = a\<lparr>processed_date := Some (clock ticks)\<rparr>;
                a = a\<lparr>summary := Some (generate_summary (get_str (content a)))\<rparr>;
                a = a\<lparr>priority := Some (determine_priority a score)\<rparr>
            in case hash a of
                 None \<Rightarrow> Inl KeyError
               | Some h \<Rightarrow>
                   process_loop md5 clock rest (processed @ [a], insert h seen_hashes, ticks + 1))
         else process_loop md5 clock rest (processed, seen_hashes, ticks)))"

text \<open>
  \<open>xs.sort(key=f, reverse=True)\<close>: the list is reversed, sorted stably in ascending
  order of the key and reversed again, so equal keys keep their order.
\<close>

definition sort_reverse :: "('a \<Rightarrow> 'k::linorder) \<Rightarrow> 'a list \<Rightarrow> 'a list" where
  "sort_reverse f xs = rev (sort_key f (rev xs))"

text \<open>
  The key \<open>(x['relevance_score'], x.get('date', ''))\<close>; \<open>x['relevance_score']\<close> raises
  \<open>KeyError\<close> on an absent key.
\<close>

fun score_of :: "article \<Rightarrow> int" where
  "score_of a = (case relevance_score a of Some s \<Rightarrow> s | None \<Rightarrow> 0)"

definition sort_tuple :: "article \<Rightarrow> int \<times> string" where
  "sort_tuple a = (score_of a, get_str (date a))"

definition sort_processed :: "article list \<Rightarrow> error + article list" where
  "sort_processed processed =
     (if list_all (\<lambda>a. relevance_score a \<noteq> None) processed
      then Inr (sort_reverse sort_tuple processed)
      else Inl KeyError)"

text \<open>
  \<open>process_articles\<close>, from the set of seen hashes and the clock before the call to the
  returned list, the set of seen hashes and the clock after it.
\<close>

definition process_articles ::
  "(string \<Rightarrow> string) \<Rightarrow> (nat \<Rightarrow> string) \<Rightarrow> article list \<Rightarrow> string set \<Rightarrow> nat \<Rightarrow>
   error + (article list \<times> string set \<times> nat)" where
  "process_articles md5 clock articles seen_hashes ticks =
     (case process_loop md5 clock articles ([], seen_hashes, ticks) of
        Inl e \<Rightarrow> Inl e
      | Inr (processed, seen_hashes, ticks) \<Rightarrow>
          (case sort_processed processed of
             Inl e \<Rightarrow> Inl e
           | Inr sorted_articles \<Rightarrow> Inr (sorted_articles, seen_hashes, ticks)))"

section \<open>Near duplicates\<close>

text \<open>
  The alphanumeric characters (\<open>str.isalnum\<close>): the ASCII letters and digits, and of the
  Latin-1 supplement the letters 0xAA, 0xB5, 0xBA, 0xC0 to 0xFF without the signs 0xD7
  and 0xF7, the superscript digits 0xB2, 0xB3, 0xB9 and the fractions 0xBC to 0xBE. The
  word characters of \<open>\w\<close> are these and the underscore.
\<close>

definition is_alnum_char :: "char \<Rightarrow> bool" where
  "is_alnum_char c \<longleftrightarrow>
     (CHR ''a'' \<le> c \<and> c \<le> CHR ''z'') \<or> (CHR ''A'' \<le> c \<and> c \<le> CHR ''Z'') \<or>
     (CHR ''0'' \<le> c \<and> c \<le> CHR ''9'') \<or>
     c \<in> set [CHR 0xAA, CHR 0xB2, CHR 0xB3, CHR 0xB5, CHR 0xB9, CHR 0xBA,
                CHR 0xBC, CHR 0xBD, CHR 0xBE] \<or>
     (CHR 0xC0 \<le> c \<and> c \<le> CHR 0xD6) \<or> (CHR 0xD8 \<le> c \<and> c \<le> CHR 0xF6) \<or>
     (CHR 0xF8 \<le> c \<and> c \<le> CHR 0xFF)"

definition is_word_char :: "char \<Rightarrow> bool" where
  "is_word_char c \<longleftrightarrow> is_alnum_char c \<or> c = CHR ''_''"

text \<open>
  \<open>re.findall(r'\b\w+\b', s)\<close>: the maximal runs of word characters, from left to right.
\<close>

function find_words :: "string \<Rightarrow> string list" where
  "find_words [] = []"
| "find_words (c # cs) =
     (if is_word_char c
      then (c # takeWhile is_word_char cs) # find_words (dropWhile is_word_char cs)
      else find_words cs)"
  by pat_completeness auto
termination
  by (relation "measure length") (auto simp: less_Suc_eq_le length_dropWhile_le)

definition title_word_set :: "string \<Rightarrow> string set" where
  "title_word_set title_l = set (find_words title_l)"

text \<open>
  \<open>len(title_words & seen_words) / max(len(title_words), 1) > 0.8\<close>. The quotient of the
  two integers is compared with four fifths exactly: the floating point division and the
  floating point constant \<open>0.8\<close> give the same answer for every set of fewer than
  \<open>2\<^sup>5\<^sup>0\<close> words.
\<close>

definition overlaps :: "string set \<Rightarrow> string set \<Rightarrow> bool" where
  "overlaps title_words seen_words \<longleftrightarrow>
     5 * card (title_words \<inter> seen_words) > 4 * max (card title_words) 1"

text \<open>The inner loop over \<open>seen_titles\<close>, a set: its result does not depend on the order.\<close>

definition is_near_duplicate :: "string \<Rightarrow> string set \<Rightarrow> bool" where
  "is_near_duplicate title_l seen_titles \<longleftrightarrow>
     (\<exists>seen_title \<in> seen_titles.
        overlaps (title_word_set title_l) (title_word_set seen_title))"

fun dedup_loop :: "article list \<Rightarrow> article list \<Rightarrow> string set \<Rightarrow> article list" where
  "dedup_loop [] unique_articles seen_titles = unique_articles"
| "dedup_loop (a # rest) unique_articles seen_titles =
     (let title_l = lower_title a in
      if \<not> is_near_duplicate title_l seen_titles
      then dedup_loop rest (unique_articles @ [a]) (insert title_l seen_titles)
      else dedup_loop rest unique_articles seen_titles)"

definition deduplicate_articles :: "article list \<Rightarrow> article list" where
  "deduplicate_articles articles = dedup_loop articles [] {}"

section \<open>Date filter\<close>

text \<open>
  A \<open>datetime\<close> without time zone is the number of microseconds since the first moment
  the type can hold, 0001-01-01T00:00:00; the last one is 9999-12-31T23:59:59.999999.
  Python compares two such values as these numbers compare, and subtracting a
  \<open>timedelta\<close> raises \<open>OverflowError\<close> when the result leaves the range.
\<close>

type_synonym datetime = int

definition microseconds_per_day :: int where
  "microseconds_per_day = 86400000000"

definition datetime_max :: datetime where
  "datetime_max = 3652059 * microseconds_per_day - 1"

text \<open>\<open>datetime.now() - timedelta(days=days_back)\<close>\<close>

definition cutoff_date :: "datetime \<Rightarrow> int \<Rightarrow> error + datetime" where
  "cutoff_date now days_back =
     (let c = now - days_back * microseconds_per_day
      in if 0 \<le> c \<and> c \<le> datetime_max then Inr c else Inl OverflowError)"

text \<open>\<open>s.split('T')[0]\<close>: the text before the first \<open>T\<close>.\<close>

definition split_T :: "string \<Rightarrow> string" where
  "split_T s = takeWhile (\<lambda>c. c \<noteq> CHR ''T'') s"

definition date_formats :: "string list" where
  "date_formats = [''%Y-%m-%d'', ''%Y-%m-%dT%H:%M:%S'', ''%a, %d %b %Y %H:%M:%S %Z'']"

text \<open>
  The loop over the formats. \<open>datetime.strptime\<close> is a function of the library and a
  parameter of the model: \<open>strptime s f\<close> is \<open>None\<close> where the library raises
  \<open>ValueError\<close>. The first format that parses ends the loop.
\<close>

fun try_formats :: "(string \<Rightarrow> string \<Rightarrow> datetime option) \<Rightarrow> string \<Rightarrow> string list \<Rightarrow> datetime option" where
  "try_formats strptime article_date_str [] = None"
| "try_formats strptime article_date_str (date_format # rest) =
     (case strptime (split_T article_date_str) (split_T date_format) of
        Some article_date \<Rightarrow> Some article_date
      | None \<Rightarrow> try_formats strptime article_date_str rest)"

definition parse_date :: "(string \<Rightarrow> string \<Rightarrow> datetime option) \<Rightarrow> article \<Rightarrow> datetime option" where
  "parse_date strptime a = try_formats strptime (get_str (date a)) date_formats"

fun date_loop ::
  "(string \<Rightarrow> string \<Rightarrow> datetime option) \<Rightarrow> datetime \<Rightarrow> article list \<Rightarrow> article list \<Rightarrow> article list" where
  "date_loop strptime cutoff [] filtered_articles = filtered_articles"
| "date_loop strptime cutoff (a # rest) filtered_articles =
     (case parse_date strptime a of
        Some article_date \<Rightarrow>
          if article_date \<ge> cutoff
          then date_loop strptime cutoff rest (filtered_articles @ [a])
          else date_loop strptime cutoff rest filtered_articles
      | None \<Rightarrow> date_loop strptime cutoff rest (filtered_articles @ [a]))"

definition filter_by_date ::
  "(string \<Rightarrow> string \<Rightarrow> datetime option) \<Rightarrow> datetime \<Rightarrow> article list \<Rightarrow> int \<Rightarrow> error + article list" where
  "filter_by_date strptime now articles days_back =
     (case cutoff_date now days_back of
        Inl e \<Rightarrow> Inl e
      | Inr cutoff \<Rightarrow> Inr (date_loop strptime cutoff articles []))"

section \<open>Trending topics\<close>

text \<open>
  \<open>topic_counts\<close> is a dictionary that keeps its keys in the order they were first
  written: a list of pairs. \<open>topic_counts[keyword] += 1\<close> adds one to the count of a key
  it has, and puts a new key with count one at the end.
\<close>

fun increment :: "string \<Rightarrow> (string \<times> int) list \<Rightarrow> (string \<times> int) list" where
  "increment keyword [] = [(keyword, 1)]"
| "increment keyword ((k, n) # rest) =
     (if k = keyword then (k, n + 1) # rest else (k, n) # increment keyword rest)"

definition count_keyword :: "string \<Rightarrow> string \<Rightarrow> (string \<times> int) list \<Rightarrow> (string \<times> int) list" where
  "count_keyword combined keyword topic_counts =
     (if str_in keyword combined then increment keyword topic_counts else topic_counts)"

definition count_article :: "article \<Rightarrow> (string \<times> int) list \<Rightarrow> (string \<times> int) list" where
  "count_article a topic_counts =
     (let combined = combined_text a
      in fold (\<lambda>keyword_list. fold (count_keyword combined) keyword_list)
           ai_keywords_values topic_counts)"

definition count_topics :: "article list \<Rightarrow> (string \<times> int) list" where
  "count_topics articles = fold count_article articles []"

text \<open>\<open>dict(sorted(topic_counts.items(), key=lambda x: x[1], reverse=True)[:10])\<close>\<close>

definition get_trending_topics :: "article list \<Rightarrow> (string \<times> int) list" where
  "get_trending_topics articles = take 10 (sort_reverse snd (count_topics articles))"

section \<open>Reference formulations\<close>

text \<open>
  A raw record with a title, a content and a date, as the scrapers hand it over; the
  sample inputs below are built with it.
\<close>

definition raw_record :: "string \<Rightarrow> string \<Rightarrow> string \<Rightarrow> article" where
  "raw_record t c d =
     \<lparr>title = Some t, content = Some c, url = None, source = None, date = Some d,
      hash = None, relevance_score = None, priority = None, summary = None,
      processed_date = None\<rparr>"

text \<open>
  The score in closed form: what one keyword of a tier with a weight and a title bonus
  contributes, and the sum over the three tiers with the cap on the third.
\<close>

definition tier_points :: "int \<Rightarrow> int \<Rightarrow> string \<Rightarrow> string \<Rightarrow> string \<Rightarrow> int" where
  "tier_points weight bonus title_l text keyword =
     (if str_in keyword text
      then weight + (if str_in keyword title_l then bonus else 0)
      else 0)"

definition tier_sum :: "string \<Rightarrow> string \<Rightarrow> int" where
  "tier_sum title_l text =
     sum_list (map (tier_points 3 2 title_l text) high_priority)
     + sum_list (map (tier_points 2 1 title_l text) medium_priority)
     + min 3 (int (length (filter (\<lambda>keyword. str_in keyword text) tech_context)))"

text \<open>
  The score as the specification words it: the tiers are matched against the
  concatenation of the lower-cased title and the lower-cased content.
\<close>

definition spec_relevance_score :: "article \<Rightarrow> int" where
  "spec_relevance_score a = tier_sum (lower_title a) (lower_title a @ lower_content a)"

text \<open>
  What the main pass writes into an article it accepts, the clock read for the
  \<open>ticks\<close>-th time: the score, the time of processing, the summary and the priority.
\<close>

definition enrich :: "(nat \<Rightarrow> string) \<Rightarrow> nat \<Rightarrow> article \<Rightarrow> article" where
  "enrich clock ticks a =
     (let score = calculate_relevance_score a;
          a = a\<lparr>relevance_score := Some score\<rparr>;
          a = a\<lparr>processed_date := Some (clock ticks)\<rparr>;
          a = a\<lparr>summary := Some (generate_summary (get_str (content a)))\<rparr>
      in a\<lparr>priority := Some (determine_priority a score)\<rparr>)"

text \<open>An article with a score of at least 2 and the four enriched fields present.\<close>

definition enriched :: "article \<Rightarrow> bool" where
  "enriched a \<longleftrightarrow>
     (case relevance_score a of Some s \<Rightarrow> s \<ge> 2 | None \<Rightarrow> False) \<and>
     priority a \<noteq> None \<and> summary a \<noteq> None \<and> processed_date a \<noteq> None"

text \<open>The hash \<open>_is_duplicate\<close> computes for an article that has none.\<close>

definition computed_hash :: "(string \<Rightarrow> string) \<Rightarrow> article \<Rightarrow> string" where
  "computed_hash md5 a = md5 (get_str (title a) @ get_str (content a))"

text \<open>
  Sample inputs: a digest that returns its argument, a clock that stands still, and a
  batch of four raw records.
\<close>

definition sample_md5 :: "string \<Rightarrow> string" where
  "sample_md5 s = s"

definition sample_clock :: "nat \<Rightarrow> string" where
  "sample_clock n = ''2024-06-01T12:00:00''"

definition sample_batch :: "article list" where
  "sample_batch =
     [raw_record ''Cloud platform news'' ''A saas story'' ''2024-05-03'',
      raw_record ''OpenAI update'' ''x'' ''2024-05-01'',
      raw_record ''Weather forecast for Tuesday'' ''sunny skies expected'' ''2024-05-09'',
      raw_record ''openai Update'' ''y'' ''2024-05-02'']"

text \<open>Raw records with the given titles and nothing else.\<close>

definition sample_titles :: "string list \<Rightarrow> article list" where
  "sample_titles ts = map (\<lambda>t. raw_record t [] []) ts"

text \<open>
  The decision of the date filter on one article: an article whose date parses is
  retained when the date is not before the cutoff, one whose date does not parse is
  retained.
\<close>

definition retained :: "(string \<Rightarrow> string \<Rightarrow> datetime option) \<Rightarrow> datetime \<Rightarrow> article \<Rightarrow> bool" where
  "retained strptime cutoff a =
     (case parse_date strptime a of
        Some article_date \<Rightarrow> article_date \<ge> cutoff
      | None \<Rightarrow> True)"

text \<open>
  Sample inputs of the date filter: a parser that reads the dates 2024-05-25,
  2024-05-24 and 2019-01-01 in the format \<open>%Y-%m-%d\<close> (each at midnight) and the time
  2024-05-25T08:30:00 in the format \<open>%Y-%m-%dT%H:%M:%S\<close>, as the library does, and raises
  on everything else; the time 2024-06-01T00:00:00 as now; and four records.
\<close>

definition sample_strptime :: "string \<Rightarrow> string \<Rightarrow> datetime option" where
  "sample_strptime s f =
     (if f = ''%Y-%m-%d'' \<and> s = ''2024-05-25'' then Some 63852192000000000
      else if f = ''%Y-%m-%d'' \<and> s = ''2024-05-24'' then Some 63852105600000000
      else if f = ''%Y-%m-%d'' \<and> s = ''2019-01-01'' then Some 63681897600000000
      else if f = ''%Y-%m-%dT%H:%M:%S'' \<and> s = ''2024-05-25T08:30:00''
        then Some 63852222600000000
      else None)"

definition sample_now :: datetime where
  "sample_now = 63852796800000000"


text \<open>
  Parsing as the specification words it: the date string, as it stands, against the
  known formats in their order, the first that reads it giving the date.
\<close>

fun spec_try_formats :: "(string \<Rightarrow> string \<Rightarrow> datetime option) \<Rightarrow> string \<Rightarrow> string list \<Rightarrow> datetime option" where
  "spec_try_formats strptime article_date_str [] = None"
| "spec_try_formats strptime article_date_str (date_format # rest) =
     (case strptime article_date_str date_format of
        Some article_date \<Rightarrow> Some article_date
      | None \<Rightarrow> spec_try_formats strptime article_date_str rest)"

definition spec_parse_date :: "(string \<Rightarrow> string \<Rightarrow> datetime option) \<Rightarrow> article \<Rightarrow> datetime option" where
  "spec_parse_date strptime a = spec_try_formats strptime (get_str (date a)) date_formats"

text \<open>
  The priority as the specification words it: the indicator phrases are looked up in the
  concatenation of the lower-cased title and the lower-cased content.
\<close>

definition spec_determine_priority :: "article \<Rightarrow> int \<Rightarrow> string" where
  "spec_determine_priority a score =
     (let text = lower_title a @ lower_content a in
      if score \<ge> 10 then ''critical''
      else if any_term_in critical_terms text then ''critical''
      else if score \<ge> 6 \<or> any_term_in high_priority_terms text then ''high''
      else if score \<ge> 4 then ''medium''
      else ''low'')"

text \<open>
  The words of a title as the specification words them: the maximal runs of
  alphanumeric characters, as a set.
\<close>

function spec_find_words :: "string \<Rightarrow> string list" where
  "spec_find_words [] = []"
| "spec_find_words (c # cs) =
     (if is_alnum_char c
      then (c # takeWhile is_alnum_char cs) # spec_find_words (dropWhile is_alnum_char cs)
      else spec_find_words cs)"
  by pat_completeness auto
termination
  by (relation "measure length") (auto simp: less_Suc_eq_le length_dropWhile_le)

definition spec_title_word_set :: "string \<Rightarrow> string set" where
  "spec_title_word_set title_l = set (spec_find_words title_l)"

definition sample_dated :: "article list" where
  "sample_dated =
     [raw_record ''a'' [] ''2024-05-25'', raw_record ''b'' [] ''2024-05-24'',
      raw_record ''c'' [] ''yesterday'', raw_record ''d'' [] ''2024-05-25T08:30:00'']"

text \<open>
  The keywords in the order the extractor enumerates them, the keywords an article
  contains in that order, the number of articles that contain a keyword, the index of
  the first article that contains it, and its position in the enumeration.
\<close>

definition all_keywords :: "string list" where
  "all_keywords = concat ai_keywords_values"

definition matched :: "article \<Rightarrow> string list" where
  "matched a = filter (\<lambda>keyword. str_in keyword (combined_text a)) all_keywords"

definition article_count :: "article list \<Rightarrow> string \<Rightarrow> int" where
  "article_count articles keyword =
     int (length (filter (\<lambda>a. str_in keyword (combined_text a)) articles))"

definition first_seen :: "article list \<Rightarrow> string \<Rightarrow> nat" where
  "first_seen articles keyword =
     length (takeWhile (\<lambda>a. \<not> str_in keyword (combined_text a)) articles)"

definition tier_position :: "string \<Rightarrow> nat" where
  "tier_position keyword = length (takeWhile (\<lambda>k. k \<noteq> keyword) all_keywords)"

text \<open>
  When a keyword is first counted: the index of the first article that contains it,
  then its position in the enumeration. Pairs are compared lexicographically.
\<close>

definition encounter :: "article list \<Rightarrow> string \<Rightarrow> nat \<times> nat" where
  "encounter articles keyword = (first_seen articles keyword, tier_position keyword)"

text \<open>
  The order of ties as the specification words it: of two entries with equal counts,
  the one whose keyword comes first in the tier lists comes first.
\<close>

definition ties_in_tier_order :: "(string \<times> int) list \<Rightarrow> bool" where
  "ties_in_tier_order topics \<longleftrightarrow>
     sorted_wrt (\<lambda>x y. snd x = snd y \<longrightarrow> tier_position (fst x) < tier_position (fst y)) topics"

section \<open>Properties of the scorer and the classifier\<close>

lemma str_in_append: "str_in k t \<Longrightarrow> str_in k (p @ t @ s)"
  unfolding str_in_def
  by (metis sublist_order.order.trans sublist_append_rightI sublist_append_leftI)

lemma str_in_combined_text:
  "str_in k (lower_title a) \<or> str_in k (lower_content a) \<Longrightarrow> str_in k (combined_text a)"
proof (erule disjE)
  assume "str_in k (lower_title a)"
  then have "str_in k ([] @ lower_title a @ ('' '' @ lower_content a))"
    by (rule str_in_append)
  then show ?thesis by (simp add: combined_text_def)
next
  assume "str_in k (lower_content a)"
  then have "str_in k ((lower_title a @ '' '') @ lower_content a @ [])"
    by (rule str_in_append)
  then show ?thesis by (simp add: combined_text_def)
qed

lemma any_term_inI: "term \<in> set terms \<Longrightarrow> str_in term text \<Longrightarrow> any_term_in terms text"
  by (auto simp: any_term_in_def list_ex_iff)

lemma acquisition_is_critical_term: "''acquisition'' \<in> set critical_terms"
  by (simp add: critical_terms_def)

text \<open>
  C3, as the code has it. The priority follows a fixed precedence, the first test that
  holds deciding: a score of at least 10 is critical; a critical term in the combined
  text (the lower-cased title, one space, the lower-cased content) is critical
  whatever the score; otherwise a score of at least 6 or a high-priority term is high;
  otherwise a score of at least 4 is medium; otherwise the priority is low. So an
  article with score 3 whose title or content contains "acquisition" is critical, and
  with no term in the text the scores 6, 4 and 3 are high, medium and low.
\<close>

theorem determine_priority_precedence:
  "(score \<ge> 10 \<longrightarrow> determine_priority a score = ''critical'') \<and>
   (any_term_in critical_terms (combined_text a) \<longrightarrow> determine_priority a score = ''critical'') \<and>
   (score < 10 \<and> \<not> any_term_in critical_terms (combined_text a) \<and>
      (score \<ge> 6 \<or> any_term_in high_priority_terms (combined_text a))
      \<longrightarrow> determine_priority a score = ''high'') \<and>
   (\<not> any_term_in critical_terms (combined_text a) \<and>
      \<not> any_term_in high_priority_terms (combined_text a) \<and> 4 \<le> score \<and> score < 6
      \<longrightarrow> determine_priority a score = ''medium'') \<and>
   (\<not> any_term_in critical_terms (combined_text a) \<and>
      \<not> any_term_in high_priority_terms (combined_text a) \<and> score < 4
      \<longrightarrow> determine_priority a score = ''low'') \<and>
   (str_in ''acquisition'' (lower_title a) \<or> str_in ''acquisition'' (lower_content a)
      \<longrightarrow> determine_priority a 3 = ''critical'') \<and>
   (\<not> any_term_in critical_terms (combined_text a) \<and>
      \<not> any_term_in high_priority_terms (combined_text a)
      \<longrightarrow> determine_priority a 6 = ''high'' \<and> determine_priority a 4 = ''medium'' \<and>
          determine_priority a 3 = ''low'')"
proof -
  have acq: "determine_priority a 3 = ''critical''"
    if "str_in ''acquisition'' (lower_title a) \<or> str_in ''acquisition'' (lower_content a)"
  proof -
    from that have "str_in ''acquisition'' (combined_text a)"
      by (rule str_in_combined_text)
    with acquisition_is_critical_term
    have "any_term_in critical_terms (combined_text a)"
      by (rule any_term_inI)
    then show ?thesis by (simp add: determine_priority_def Let_def)
  qed
  show ?thesis
    by (intro conjI impI acq) (simp_all add: determine_priority_def Let_def)
qed

theorem determine_priority_precedence_witness:
  "str_in ''acquisition'' (lower_title (raw_record ''Startup Acquisition talks'' ''No details'' [])) \<and>
   determine_priority (raw_record ''Startup Acquisition talks'' ''No details'' []) 3 = ''critical'' \<and>
   \<not> any_term_in critical_terms (combined_text (raw_record ''Weather'' ''Sunny skies'' [])) \<and>
   \<not> any_term_in high_priority_terms (combined_text (raw_record ''Weather'' ''Sunny skies'' [])) \<and>
   determine_priority (raw_record ''Weather'' ''Sunny skies'' []) 11 = ''critical'' \<and>
   determine_priority (raw_record ''Weather'' ''Sunny skies'' []) 6 = ''high'' \<and>
   determine_priority (raw_record ''Weather'' ''Sunny skies'' []) 4 = ''medium'' \<and>
   determine_priority (raw_record ''Weather'' ''Sunny skies'' []) 3 = ''low''"
proof -
  have h1: "str_in ''acquisition'' (lower_title (raw_record ''Startup Acquisition talks'' ''No details'' []))"
    by code_simp
  have h2: "\<not> any_term_in critical_terms (combined_text (raw_record ''Weather'' ''Sunny skies'' []))"
    by code_simp
  have h3: "\<not> any_term_in high_priority_terms (combined_text (raw_record ''Weather'' ''Sunny skies'' []))"
    by code_simp
  from h1 determine_priority_precedence
    [of 3 "raw_record ''Startup Acquisition talks'' ''No details'' []"]
  have c1: "determine_priority (raw_record ''Startup Acquisition talks'' ''No details'' []) 3 = ''critical''"
    by blast
  from h2 h3 determine_priority_precedence [of 11 "raw_record ''Weather'' ''Sunny skies'' []"]
  have c2: "determine_priority (raw_record ''Weather'' ''Sunny skies'' []) 11 = ''critical'' \<and>
            determine_priority (raw_record ''Weather'' ''Sunny skies'' []) 6 = ''high'' \<and>
            determine_priority (raw_record ''Weather'' ''Sunny skies'' []) 4 = ''medium'' \<and>
            determine_priority (raw_record ''Weather'' ''Sunny skies'' []) 3 = ''low''"
    by simp
  from h1 h2 h3 c1 c2 show ?thesis by simp
qed

text \<open>
  C3, as the specification words it, fails: for the title "ip" and the content "o" the
  concatenation of the two is the critical term "ipo", while the code looks in "ip o",
  finds no term and, at score 3, gives the priority low.
\<close>

theorem determine_priority_concatenation_counterexample:
  "determine_priority (raw_record ''ip'' ''o'' []) 3 = ''low'' \<and>
   spec_determine_priority (raw_record ''ip'' ''o'' []) 3 = ''critical''"
  by code_simp

lemma fold_high_step:
  "fold (high_step t c) ks s = s + sum_list (map (tier_points 3 2 t c) ks)"
  by (induction ks arbitrary: s) (simp_all add: high_step_def tier_points_def)

lemma fold_medium_step:
  "fold (medium_step t c) ks s = s + sum_list (map (tier_points 2 1 t c) ks)"
  by (induction ks arbitrary: s) (simp_all add: medium_step_def tier_points_def)

lemma fold_tech_step:
  "0 \<le> s \<Longrightarrow> s \<le> 3 \<Longrightarrow>
   fold (tech_step c) ks s = min 3 (s + int (length (filter (\<lambda>k. str_in k c) ks)))"
  by (induction ks arbitrary: s) (auto simp: tech_step_def)

lemma score_tier_sum:
  "calculate_relevance_score a = tier_sum (lower_title a) (combined_text a)"
  by (simp add: calculate_relevance_score_def Let_def fold_high_step fold_medium_step
      fold_tech_step tier_sum_def)

text \<open>
  C4, as the code has it. The relevance score is the sum over the three tiers, matched
  against the lower-cased title, one space and the lower-cased content: a high-priority
  keyword found there gives 3, and 2 more when it is in the title; a medium-priority
  keyword gives 2, and 1 more when it is in the title; the technical keywords give 1
  each, 3 at most together. The score depends on the title and the content only.
\<close>

theorem relevance_score_tier_sum:
  "calculate_relevance_score a = tier_sum (lower_title a) (lower_title a @ '' '' @ lower_content a) \<and>
   (title b = title a \<and> content b = content a
      \<longrightarrow> calculate_relevance_score b = calculate_relevance_score a)"
  by (simp add: score_tier_sum combined_text_def lower_title_def lower_content_def)

theorem relevance_score_tier_sum_witness:
  "calculate_relevance_score (raw_record ''OpenAI ships API'' ''A new cloud platform for startups'' [])
     = tier_sum ''openai ships api'' ''openai ships api a new cloud platform for startups'' \<and>
   calculate_relevance_score (raw_record ''OpenAI ships API'' ''A new cloud platform for startups'' ''2024-01-01'')
     = calculate_relevance_score (raw_record ''OpenAI ships API'' ''A new cloud platform for startups'' [])"
proof -
  have t: "lower_title (raw_record ''OpenAI ships API'' ''A new cloud platform for startups'' []) = ''openai ships api''"
    by code_simp
  have c: "lower_content (raw_record ''OpenAI ships API'' ''A new cloud platform for startups'' []) = ''a new cloud platform for startups''"
    by code_simp
  have e: "title (raw_record ''OpenAI ships API'' ''A new cloud platform for startups'' ''2024-01-01'')
             = title (raw_record ''OpenAI ships API'' ''A new cloud platform for startups'' []) \<and>
           content (raw_record ''OpenAI ships API'' ''A new cloud platform for startups'' ''2024-01-01'')
             = content (raw_record ''OpenAI ships API'' ''A new cloud platform for startups'' [])"
    by (simp add: raw_record_def)
  from relevance_score_tier_sum
    [of "raw_record ''OpenAI ships API'' ''A new cloud platform for startups'' []"
        "raw_record ''OpenAI ships API'' ''A new cloud platform for startups'' ''2024-01-01''"]
    t c e
  show ?thesis by simp
qed

text \<open>
  C4, as the specification words it, fails: for the title "Open" and the content "AI"
  the concatenation of the two contains the keyword "openai", which gives 3, while the
  code looks in "open ai" and finds no keyword.
\<close>

theorem relevance_score_concatenation_counterexample:
  "calculate_relevance_score (raw_record ''Open'' ''AI'' []) = 0 \<and>
   spec_relevance_score (raw_record ''Open'' ''AI'' []) = 3"
  by code_simp

section \<open>Properties of the main pass\<close>

lemma enriched_update:
  "s \<ge> 2 \<Longrightarrow>
   enriched (a\<lparr>relevance_score := Some s, processed_date := Some d, summary := Some m,
               priority := Some p\<rparr>)"
  by (simp add: enriched_def)

lemma is_duplicate_hash:
  "is_duplicate md5 a seen = (dup, a') \<Longrightarrow> \<exists>h. hash a' = Some h"
  by (cases "hash a") (auto simp: is_duplicate_def Let_def split: if_splits)

lemma process_loop_skip:
  "is_duplicate md5 a seen = (dup, a') \<Longrightarrow> dup \<or> calculate_relevance_score a' < 2 \<Longrightarrow>
   process_loop md5 clock (a # rest) (processed, seen, ticks) =
   process_loop md5 clock rest (processed, seen, ticks)"
  by (auto simp: Let_def)

lemma process_loop_accept:
  "is_duplicate md5 a seen = (False, a') \<Longrightarrow> calculate_relevance_score a' \<ge> 2 \<Longrightarrow>
   hash a' = Some h \<Longrightarrow>
   process_loop md5 clock (a # rest) (processed, seen, ticks) =
   process_loop md5 clock rest (processed @ [enrich clock ticks a'], insert h seen, ticks + 1)"
  by (simp add: Let_def enrich_def)

lemma enriched_enrich: "calculate_relevance_score a \<ge> 2 \<Longrightarrow> enriched (enrich clock ticks a)"
  by (simp add: enrich_def Let_def enriched_def)


lemma process_loop_enriched:
  "list_all enriched processed \<Longrightarrow>
   \<exists>out seen' ticks'. process_loop md5 clock articles (processed, seen, ticks) = Inr (out, seen', ticks')
      \<and> list_all enriched out"
proof (induction articles arbitrary: processed seen ticks)
  case Nil
  then show ?case by simp
next
  case (Cons a rest)
  obtain dup a' where d: "is_duplicate md5 a seen = (dup, a')"
    by (cases "is_duplicate md5 a seen")
  then obtain h where h: "hash a' = Some h"
    using is_duplicate_hash by blast
  show ?case
  proof (cases "dup \<or> calculate_relevance_score a' < 2")
    case True
    with d have "process_loop md5 clock (a # rest) (processed, seen, ticks) =
                 process_loop md5 clock rest (processed, seen, ticks)"
      by (rule process_loop_skip)
    with Cons.IH [OF Cons.prems] show ?thesis by simp
  next
    case False
    then have nd: "is_duplicate md5 a seen = (False, a')" and s: "calculate_relevance_score a' \<ge> 2"
      using d by auto
    from nd s h
    have step: "process_loop md5 clock (a # rest) (processed, seen, ticks) =
          process_loop md5 clock rest (processed @ [enrich clock ticks a'], insert h seen, ticks + 1)"
      by (rule process_loop_accept)
    from s have "enriched (enrich clock ticks a')" by (rule enriched_enrich)
    with Cons.prems have "list_all enriched (processed @ [enrich clock ticks a'])"
      by simp
    from Cons.IH [OF this] step show ?thesis by simp
  qed
qed

lemma set_sort_reverse: "set (sort_reverse f xs) = set xs"
  by (simp add: sort_reverse_def)

lemma sorted_sort_reverse: "sorted_wrt (\<lambda>a b. f b \<le> f a) (sort_reverse f xs)"
proof -
  have "sorted (map f (sort_key f (rev xs)))" by (rule sorted_sort_key)
  then have "sorted_wrt (\<lambda>a b. f a \<le> f b) (sort_key f (rev xs))"
    by (simp add: sorted_map)
  then show ?thesis
    by (simp add: sort_reverse_def sorted_wrt_rev)
qed

lemma enriched_has_score: "list_all enriched xs \<Longrightarrow> list_all (\<lambda>a. relevance_score a \<noteq> None) xs"
  by (induction xs) (auto simp: enriched_def split: option.splits)

lemma process_articles_result:
  "\<exists>processed seen' ticks'.
     process_loop md5 clock articles ([], seen, ticks) = Inr (processed, seen', ticks') \<and>
     list_all enriched processed \<and>
     process_articles md5 clock articles seen ticks = Inr (sort_reverse sort_tuple processed, seen', ticks')"
proof -
  from process_loop_enriched [of "[]" md5 clock articles seen ticks]
  obtain out seen' ticks' where
    l: "process_loop md5 clock articles ([], seen, ticks) = Inr (out, seen', ticks')"
    and e: "list_all enriched out" by auto
  from enriched_has_score [OF e] have "sort_processed out = Inr (sort_reverse sort_tuple out)"
    by (simp add: sort_processed_def)
  with l e show ?thesis by (simp add: process_articles_def)
qed

text \<open>
  C1. For every batch, set of seen hashes and clock, the main pass returns a list, and
  every record of that list has a relevance score of at least 2 and the four enriched
  fields \<open>relevance_score\<close>, \<open>priority\<close>, \<open>summary\<close> and \<open>processed_date\<close> present.
\<close>

theorem process_articles_output_enriched:
  "\<exists>out seen' ticks'.
     process_articles md5 clock articles seen ticks = Inr (out, seen', ticks') \<and>
     (\<forall>a \<in> set out. (\<exists>s. relevance_score a = Some s \<and> s \<ge> 2) \<and> priority a \<noteq> None \<and>
         summary a \<noteq> None \<and> processed_date a \<noteq> None)"
proof -
  from process_articles_result [of md5 clock articles seen ticks]
  obtain processed seen' ticks' where
    e: "list_all enriched processed" and
    p: "process_articles md5 clock articles seen ticks = Inr (sort_reverse sort_tuple processed, seen', ticks')"
    by blast
  from e have "\<forall>a \<in> set (sort_reverse sort_tuple processed). enriched a"
    by (simp add: set_sort_reverse list_all_iff)
  then have "\<forall>a \<in> set (sort_reverse sort_tuple processed).
      (\<exists>s. relevance_score a = Some s \<and> s \<ge> 2) \<and> priority a \<noteq> None \<and>
         summary a \<noteq> None \<and> processed_date a \<noteq> None"
    by (auto simp: enriched_def split: option.splits)
  with p show ?thesis by blast
qed

text \<open>
  C8. For every batch, the list the main pass returns is sorted in descending order of
  the pair of the relevance score and the date, the pairs compared lexicographically and
  the date as the text it is (the empty text when the record has none).
\<close>

theorem process_articles_sorted:
  "\<exists>out seen' ticks'.
     process_articles md5 clock articles seen ticks = Inr (out, seen', ticks') \<and>
     sorted_wrt (\<lambda>a b. (score_of b, get_str (date b)) \<le> (score_of a, get_str (date a))) out \<and>
     list_all (\<lambda>a. relevance_score a = Some (score_of a)) out"
proof -
  from process_articles_result [of md5 clock articles seen ticks]
  obtain processed seen' ticks' where
    e: "list_all enriched processed" and
    p: "process_articles md5 clock articles seen ticks = Inr (sort_reverse sort_tuple processed, seen', ticks')"
    by blast
  have s: "sorted_wrt (\<lambda>a b. sort_tuple b \<le> sort_tuple a) (sort_reverse sort_tuple processed)"
    by (rule sorted_sort_reverse)
  from e have "\<forall>a \<in> set (sort_reverse sort_tuple processed). enriched a"
    by (simp add: set_sort_reverse list_all_iff)
  then have "list_all (\<lambda>a. relevance_score a = Some (score_of a)) (sort_reverse sort_tuple processed)"
    by (auto simp: enriched_def list_all_iff split: option.splits)
  with p s show ?thesis by (simp add: sort_tuple_def)
qed


lemma is_duplicate_falsy:
  "falsy (hash a) \<Longrightarrow>
   is_duplicate md5 a seen = (computed_hash md5 a \<in> seen, a\<lparr>hash := Some (computed_hash md5 a)\<rparr>)"
  by (simp add: is_duplicate_def computed_hash_def Let_def)

lemma score_hash_update [simp]:
  "calculate_relevance_score (a\<lparr>hash := h\<rparr>) = calculate_relevance_score a"
  by (simp add: calculate_relevance_score_def lower_title_def combined_text_def lower_content_def)

declare process_loop.simps(2) [simp del]

lemma process_loop_step:
  "\<exists>st. (\<forall>rest. process_loop md5 clock (a # rest) (processed, seen, ticks) = process_loop md5 clock rest st)
        \<and> seen \<subseteq> fst (snd st)
        \<and> (\<forall>a'. is_duplicate md5 a seen = (False, a') \<and> calculate_relevance_score a' \<ge> 2
              \<longrightarrow> st = (processed @ [enrich clock ticks a'], insert (get_str (hash a')) seen, ticks + 1))"
proof -
  obtain dup a' where d: "is_duplicate md5 a seen = (dup, a')"
    by (cases "is_duplicate md5 a seen")
  then obtain h where h: "hash a' = Some h"
    using is_duplicate_hash by blast
  show ?thesis
  proof (cases "dup \<or> calculate_relevance_score a' < 2")
    case True
    have "\<forall>rest. process_loop md5 clock (a # rest) (processed, seen, ticks) =
                 process_loop md5 clock rest (processed, seen, ticks)"
      using process_loop_skip [OF d True] by blast
    moreover have "\<forall>a''. is_duplicate md5 a seen = (False, a'') \<and> calculate_relevance_score a'' \<ge> 2
              \<longrightarrow> (processed, seen, ticks) = (processed @ [enrich clock ticks a''], insert (get_str (hash a'')) seen, ticks + 1)"
      using True d by auto
    ultimately show ?thesis by (intro exI [of _ "(processed, seen, ticks)"]) simp
  next
    case False
    then have nd: "is_duplicate md5 a seen = (False, a')" and s: "calculate_relevance_score a' \<ge> 2"
      using d by auto
    have "\<forall>rest. process_loop md5 clock (a # rest) (processed, seen, ticks) =
          process_loop md5 clock rest (processed @ [enrich clock ticks a'], insert h seen, ticks + 1)"
      using process_loop_accept [OF nd s h] by blast
    then show ?thesis
      using nd h by (intro exI [of _ "(processed @ [enrich clock ticks a'], insert h seen, ticks + 1)"]) auto
  qed
qed

lemma process_loop_seen_mono:
  "process_loop md5 clock xs (processed, seen, ticks) = Inr (processed', seen', ticks') \<Longrightarrow> seen \<subseteq> seen'"
proof (induction xs arbitrary: processed seen ticks)
  case Nil
  then show ?case by simp
next
  case (Cons a rest)
  from process_loop_step [of md5 clock a processed seen ticks]
  obtain p1 s1 t1 where
    st: "process_loop md5 clock (a # rest) (processed, seen, ticks) = process_loop md5 clock rest (p1, s1, t1)"
    and m: "seen \<subseteq> s1"
    by (metis fst_conv snd_conv prod_cases3)
  from Cons.prems st have "process_loop md5 clock rest (p1, s1, t1) = Inr (processed', seen', ticks')"
    by simp
  then have "s1 \<subseteq> seen'" by (rule Cons.IH)
  with m show ?case by blast
qed

lemma process_loop_append:
  "process_loop md5 clock (xs @ ys) (processed, seen, ticks) =
     (case process_loop md5 clock xs (processed, seen, ticks) of
        Inl e \<Rightarrow> Inl e
      | Inr st \<Rightarrow> process_loop md5 clock ys st)"
proof (induction xs arbitrary: processed seen ticks)
  case Nil
  then show ?case by simp
next
  case (Cons a rest)
  from process_loop_step [of md5 clock a processed seen ticks]
  obtain p1 s1 t1 where
    st: "\<forall>r. process_loop md5 clock (a # r) (processed, seen, ticks) = process_loop md5 clock r (p1, s1, t1)"
    by (metis prod_cases3)
  from st have "process_loop md5 clock ((a # rest) @ ys) (processed, seen, ticks)
      = process_loop md5 clock (rest @ ys) (p1, s1, t1)" by simp
  also have "\<dots> = (case process_loop md5 clock rest (p1, s1, t1) of
        Inl e \<Rightarrow> Inl e | Inr st \<Rightarrow> process_loop md5 clock ys st)" by (rule Cons.IH)
  also from st have "process_loop md5 clock rest (p1, s1, t1) = process_loop md5 clock (a # rest) (processed, seen, ticks)"
    by simp
  finally show ?case .
qed

lemma process_loop_seen_skip:
  assumes "falsy (hash a)" "computed_hash md5 a \<in> seen"
  shows "process_loop md5 clock (a # rest) (processed, seen, ticks) =
         process_loop md5 clock rest (processed, seen, ticks)"
proof -
  from assms have "is_duplicate md5 a seen = (True, a\<lparr>hash := Some (computed_hash md5 a)\<rparr>)"
    by (simp add: is_duplicate_falsy)
  then show ?thesis by (rule process_loop_skip) simp
qed

lemma process_loop_drop_seen:
  assumes "falsy (hash a)" "computed_hash md5 a \<in> seen"
  shows "process_loop md5 clock (mid @ a # post) (processed, seen, ticks) =
         process_loop md5 clock (mid @ post) (processed, seen, ticks)"
proof (cases "process_loop md5 clock mid (processed, seen, ticks)")
  case (Inl e)
  then show ?thesis by (simp add: process_loop_append)
next
  case (Inr st)
  obtain p2 s2 t2 where st: "st = (p2, s2, t2)" by (cases st)
  with Inr have "seen \<subseteq> s2" using process_loop_seen_mono by blast
  with assms(2) have "computed_hash md5 a \<in> s2" by blast
  with assms(1) have "process_loop md5 clock (a # post) (p2, s2, t2) = process_loop md5 clock post (p2, s2, t2)"
    by (rule process_loop_seen_skip)
  with Inr st show ?thesis by (simp add: process_loop_append)
qed

text \<open>
  C10. The hash computed for a record that has none depends on the concatenation of its
  title and content only. Two records without a hash whose concatenations are equal get
  equal hashes; when the first has a score of at least 2, the second, wherever it comes
  after the first in the batch, leaves the result of the main pass as it is without it;
  and when the hash is not yet seen, the batch of the two returns the first record alone.
\<close>

theorem equal_concatenation_equal_hash:
  assumes "falsy (hash a1)" and "falsy (hash a2)"
    and "get_str (title a1) @ get_str (content a1) = get_str (title a2) @ get_str (content a2)"
  shows "hash (snd (is_duplicate md5 a1 seen1)) = hash (snd (is_duplicate md5 a2 seen2)) \<and>
    (calculate_relevance_score a1 \<ge> 2 \<longrightarrow>
       process_articles md5 clock (a1 # mid @ a2 # post) seen ticks =
       process_articles md5 clock (a1 # mid @ post) seen ticks) \<and>
    (calculate_relevance_score a1 \<ge> 2 \<and> computed_hash md5 a1 \<notin> seen \<longrightarrow>
       process_articles md5 clock [a1, a2] seen ticks =
       Inr ([enrich clock ticks (a1\<lparr>hash := Some (computed_hash md5 a1)\<rparr>)],
            insert (computed_hash md5 a1) seen, ticks + 1))"
proof (intro conjI impI)
  from assms(3) have eq: "computed_hash md5 a1 = computed_hash md5 a2"
    by (simp add: computed_hash_def)
  with assms(1,2) show "hash (snd (is_duplicate md5 a1 seen1)) = hash (snd (is_duplicate md5 a2 seen2))"
    by (simp add: is_duplicate_falsy)
  have loop: "process_loop md5 clock (a1 # mid @ a2 # post) (processed, seen, ticks) =
              process_loop md5 clock (a1 # mid @ post) (processed, seen, ticks)"
    if s: "calculate_relevance_score a1 \<ge> 2" for processed mid post
  proof -
    from process_loop_step [of md5 clock a1 processed seen ticks]
    obtain p1 s1 t1 where
      st: "\<forall>r. process_loop md5 clock (a1 # r) (processed, seen, ticks) = process_loop md5 clock r (p1, s1, t1)"
      and m: "seen \<subseteq> s1"
      and acc: "\<forall>a'. is_duplicate md5 a1 seen = (False, a') \<and> calculate_relevance_score a' \<ge> 2
              \<longrightarrow> (p1, s1, t1) = (processed @ [enrich clock ticks a'], insert (get_str (hash a')) seen, ticks + 1)"
      by (metis fst_conv snd_conv prod_cases3)
    have "computed_hash md5 a1 \<in> s1"
    proof (cases "computed_hash md5 a1 \<in> seen")
      case True
      with m show ?thesis by blast
    next
      case False
      with assms(1) have "is_duplicate md5 a1 seen = (False, a1\<lparr>hash := Some (computed_hash md5 a1)\<rparr>)"
        by (simp add: is_duplicate_falsy)
      with acc s have "s1 = insert (computed_hash md5 a1) seen" by simp
      then show ?thesis by simp
    qed
    with eq have "computed_hash md5 a2 \<in> s1" by simp
    with assms(2) have "process_loop md5 clock (mid @ a2 # post) (p1, s1, t1) =
         process_loop md5 clock (mid @ post) (p1, s1, t1)"
      by (rule process_loop_drop_seen)
    with st show ?thesis by simp
  qed
  show "process_articles md5 clock (a1 # mid @ a2 # post) seen ticks =
        process_articles md5 clock (a1 # mid @ post) seen ticks"
    if "calculate_relevance_score a1 \<ge> 2"
    using loop [OF that] by (simp add: process_articles_def)
  show "process_articles md5 clock [a1, a2] seen ticks =
       Inr ([enrich clock ticks (a1\<lparr>hash := Some (computed_hash md5 a1)\<rparr>)],
            insert (computed_hash md5 a1) seen, ticks + 1)"
    if h: "calculate_relevance_score a1 \<ge> 2 \<and> computed_hash md5 a1 \<notin> seen"
  proof -
    from h have s: "calculate_relevance_score a1 \<ge> 2" and n: "computed_hash md5 a1 \<notin> seen" by auto
    let ?a = "a1\<lparr>hash := Some (computed_hash md5 a1)\<rparr>"
    from loop [OF s, of "[]" "[]" "[]"]
    have "process_loop md5 clock [a1, a2] ([], seen, ticks) = process_loop md5 clock [a1] ([], seen, ticks)"
      by simp
    also from assms(1) n have d: "is_duplicate md5 a1 seen = (False, ?a)"
      by (simp add: is_duplicate_falsy)
    have "process_loop md5 clock [a1] ([], seen, ticks) =
          process_loop md5 clock [] ([] @ [enrich clock ticks ?a], insert (computed_hash md5 a1) seen, ticks + 1)"
      by (rule process_loop_accept [OF d]) (use s in simp_all)
    finally have l: "process_loop md5 clock [a1, a2] ([], seen, ticks) =
        Inr ([enrich clock ticks ?a], insert (computed_hash md5 a1) seen, ticks + 1)" by simp
    have "enriched (enrich clock ticks ?a)" using s by (intro enriched_enrich) simp
    then have "list_all enriched [enrich clock ticks ?a]" by simp
    then have "list_all (\<lambda>a. relevance_score a \<noteq> None) [enrich clock ticks ?a]"
      by (rule enriched_has_score)
    then have "sort_processed [enrich clock ticks ?a] = Inr [enrich clock ticks ?a]"
      by (simp add: sort_processed_def sort_reverse_def)
    with l show ?thesis by (simp add: process_articles_def)
  qed
qed


subsection \<open>The main pass on sample batches\<close>

lemma process_loop_new_accept:
  assumes "falsy (hash a)" "computed_hash md5 a \<notin> seen" "calculate_relevance_score a \<ge> 2"
  shows "process_loop md5 clock (a # rest) (processed, seen, ticks) =
         process_loop md5 clock rest
           (processed @ [enrich clock ticks (a\<lparr>hash := Some (computed_hash md5 a)\<rparr>)],
            insert (computed_hash md5 a) seen, ticks + 1)"
proof -
  from assms(1,2)
  have "is_duplicate md5 a seen = (False, a\<lparr>hash := Some (computed_hash md5 a)\<rparr>)"
    by (simp add: is_duplicate_falsy)
  then show ?thesis by (rule process_loop_accept) (use assms(3) in simp_all)
qed

lemma process_loop_new_reject:
  assumes "falsy (hash a)" "calculate_relevance_score a < 2"
  shows "process_loop md5 clock (a # rest) (processed, seen, ticks) =
         process_loop md5 clock rest (processed, seen, ticks)"
proof -
  from assms(1)
  have "is_duplicate md5 a seen = (computed_hash md5 a \<in> seen, a\<lparr>hash := Some (computed_hash md5 a)\<rparr>)"
    by (rule is_duplicate_falsy)
  then show ?thesis by (rule process_loop_skip) (use assms(2) in simp)
qed

lemma sort_tuple_enrich:
  "sort_tuple (enrich clock ticks a) = (calculate_relevance_score a, get_str (date a))"
  by (simp add: sort_tuple_def enrich_def Let_def)

lemma fields_enrich:
  "relevance_score (enrich clock ticks a) = Some (calculate_relevance_score a)"
  "date (enrich clock ticks a) = date a"
  "title (enrich clock ticks a) = title a"
  by (simp_all add: enrich_def Let_def)

lemma length_sort_reverse: "length (sort_reverse f xs) = length xs"
  by (simp add: sort_reverse_def)

lemma sample_scores:
  "calculate_relevance_score (raw_record ''Cloud platform news'' ''A saas story'' ''2024-05-03'') = 3"
  "calculate_relevance_score (raw_record ''OpenAI update'' ''x'' ''2024-05-01'') = 5"
  "calculate_relevance_score (raw_record ''Weather forecast for Tuesday'' ''sunny skies expected'' ''2024-05-09'') = 0"
  "calculate_relevance_score (raw_record ''openai Update'' ''y'' ''2024-05-02'') = 5"
  by code_simp+

lemma sample_loop:
  "process_loop sample_md5 sample_clock sample_batch ([], {}, 0) =
     Inr ([enrich sample_clock 0 ((raw_record ''Cloud platform news'' ''A saas story'' ''2024-05-03'')
              \<lparr>hash := Some ''Cloud platform newsA saas story''\<rparr>),
           enrich sample_clock (Suc 0) ((raw_record ''OpenAI update'' ''x'' ''2024-05-01'')
              \<lparr>hash := Some ''OpenAI updatex''\<rparr>),
           enrich sample_clock (Suc (Suc 0)) ((raw_record ''openai Update'' ''y'' ''2024-05-02'')
              \<lparr>hash := Some ''openai Updatey''\<rparr>)],
          {''Cloud platform newsA saas story'', ''OpenAI updatex'', ''openai Updatey''}, Suc (Suc (Suc 0)))"
proof -
  have f: "\<And>t c d. falsy (hash (raw_record t c d))" by (simp add: raw_record_def)
  have h: "\<And>t c d. computed_hash sample_md5 (raw_record t c d) = t @ c"
    by (simp add: computed_hash_def sample_md5_def raw_record_def)
  show ?thesis
    unfolding sample_batch_def
    apply (subst process_loop_new_accept)
       apply (rule f)
      apply (simp add: h)
     apply (simp add: sample_scores)
    apply (subst process_loop_new_accept)
       apply (rule f)
      apply (simp add: h)
     apply (simp add: sample_scores)
    apply (subst process_loop_new_reject)
      apply (rule f)
     apply (simp add: sample_scores)
    apply (subst process_loop_new_accept)
       apply (rule f)
      apply (simp add: h)
     apply (simp add: sample_scores)
    apply (simp add: h insert_commute)
    done
qed

lemma sample_sorted:
  "sort_reverse sort_tuple
     [enrich sample_clock 0 ((raw_record ''Cloud platform news'' ''A saas story'' ''2024-05-03'')
              \<lparr>hash := Some ''Cloud platform newsA saas story''\<rparr>),
      enrich sample_clock (Suc 0) ((raw_record ''OpenAI update'' ''x'' ''2024-05-01'')
              \<lparr>hash := Some ''OpenAI updatex''\<rparr>),
      enrich sample_clock (Suc (Suc 0)) ((raw_record ''openai Update'' ''y'' ''2024-05-02'')
              \<lparr>hash := Some ''openai Updatey''\<rparr>)]
   = [enrich sample_clock (Suc (Suc 0)) ((raw_record ''openai Update'' ''y'' ''2024-05-02'')
              \<lparr>hash := Some ''openai Updatey''\<rparr>),
      enrich sample_clock (Suc 0) ((raw_record ''OpenAI update'' ''x'' ''2024-05-01'')
              \<lparr>hash := Some ''OpenAI updatex''\<rparr>),
      enrich sample_clock 0 ((raw_record ''Cloud platform news'' ''A saas story'' ''2024-05-03'')
              \<lparr>hash := Some ''Cloud platform newsA saas story''\<rparr>)]"
proof -
  have d: "\<And>t c d. get_str (date (raw_record t c d)) = d"
    by (simp add: raw_record_def)
  show ?thesis
    by (simp add: sort_reverse_def sort_tuple_enrich sample_scores d)
qed

lemma sample_result:
  "process_articles sample_md5 sample_clock sample_batch {} 0 =
     Inr ([enrich sample_clock (Suc (Suc 0)) ((raw_record ''openai Update'' ''y'' ''2024-05-02'')
              \<lparr>hash := Some ''openai Updatey''\<rparr>),
           enrich sample_clock (Suc 0) ((raw_record ''OpenAI update'' ''x'' ''2024-05-01'')
              \<lparr>hash := Some ''OpenAI updatex''\<rparr>),
           enrich sample_clock 0 ((raw_record ''Cloud platform news'' ''A saas story'' ''2024-05-03'')
              \<lparr>hash := Some ''Cloud platform newsA saas story''\<rparr>)],
          {''Cloud platform newsA saas story'', ''OpenAI updatex'', ''openai Updatey''},
          Suc (Suc (Suc 0)))"
  by (simp add: process_articles_def sample_loop sort_processed_def fields_enrich sample_sorted)

lemma raw_fields:
  "title (raw_record t c d) = Some t"
  "content (raw_record t c d) = Some c"
  "date (raw_record t c d) = Some d"
  "hash (raw_record t c d) = None"
  by (simp_all add: raw_record_def)


theorem process_articles_output_enriched_witness:
  "\<exists>out seen' ticks'.
     process_articles sample_md5 sample_clock sample_batch {} 0 = Inr (out, seen', ticks') \<and>
     map title out = [Some ''openai Update'', Some ''OpenAI update'', Some ''Cloud platform news''] \<and>
     list_all (\<lambda>a. (\<exists>s. relevance_score a = Some s \<and> s \<ge> 2) \<and> priority a \<noteq> None \<and>
         summary a \<noteq> None \<and> processed_date a \<noteq> None) out"
proof -
  from process_articles_output_enriched [of sample_md5 sample_clock sample_batch "{}" 0]
  obtain out seen' ticks' where
    p: "process_articles sample_md5 sample_clock sample_batch {} 0 = Inr (out, seen', ticks')" and
    e: "\<forall>a \<in> set out. (\<exists>s. relevance_score a = Some s \<and> s \<ge> 2) \<and> priority a \<noteq> None \<and>
         summary a \<noteq> None \<and> processed_date a \<noteq> None"
    by blast
  from p have m: "map title out = [Some ''openai Update'', Some ''OpenAI update'', Some ''Cloud platform news'']"
    unfolding sample_result by (auto simp: fields_enrich raw_fields)
  from e have l: "list_all (\<lambda>a. (\<exists>s. relevance_score a = Some s \<and> s \<ge> 2) \<and> priority a \<noteq> None \<and>
         summary a \<noteq> None \<and> processed_date a \<noteq> None) out"
    by (simp add: list_all_iff)
  show ?thesis
    by (rule exI [of _ out], rule exI [of _ seen'], rule exI [of _ ticks']) (intro conjI p m l)
qed

theorem process_articles_sorted_witness:
  "\<exists>out seen' ticks'.
     process_articles sample_md5 sample_clock sample_batch {} 0 = Inr (out, seen', ticks') \<and>
     map (\<lambda>a. (relevance_score a, date a)) out =
       [(Some 5, Some ''2024-05-02''), (Some 5, Some ''2024-05-01''), (Some 3, Some ''2024-05-03'')] \<and>
     sorted_wrt (\<lambda>a b. (score_of b, get_str (date b)) \<le> (score_of a, get_str (date a))) out"
proof -
  from process_articles_sorted [of sample_md5 sample_clock sample_batch "{}" 0]
  obtain out seen' ticks' where
    p: "process_articles sample_md5 sample_clock sample_batch {} 0 = Inr (out, seen', ticks')" and
    e: "sorted_wrt (\<lambda>a b. (score_of b, get_str (date b)) \<le> (score_of a, get_str (date a))) out"
    by blast
  from p have m: "map (\<lambda>a. (relevance_score a, date a)) out =
       [(Some 5, Some ''2024-05-02''), (Some 5, Some ''2024-05-01''), (Some 3, Some ''2024-05-03'')]"
    unfolding sample_result by (auto simp: fields_enrich sample_scores raw_fields)
  show ?thesis
    by (rule exI [of _ out], rule exI [of _ seen'], rule exI [of _ ticks']) (intro conjI p m e)
qed

theorem equal_concatenation_equal_hash_witness:
  "falsy (hash (raw_record ''OpenAI ab'' [] [])) \<and>
   falsy (hash (raw_record ''OpenAI a'' ''b'' [])) \<and>
   get_str (title (raw_record ''OpenAI ab'' [] [])) @ get_str (content (raw_record ''OpenAI ab'' [] []))
     = get_str (title (raw_record ''OpenAI a'' ''b'' [])) @ get_str (content (raw_record ''OpenAI a'' ''b'' [])) \<and>
   title (raw_record ''OpenAI ab'' [] []) \<noteq> title (raw_record ''OpenAI a'' ''b'' []) \<and>
   calculate_relevance_score (raw_record ''OpenAI ab'' [] []) = 5 \<and>
   calculate_relevance_score (raw_record ''OpenAI a'' ''b'' []) = 5 \<and>
   process_articles sample_md5 sample_clock
       [raw_record ''OpenAI ab'' [] [], raw_record ''OpenAI a'' ''b'' []] {} 0 =
     Inr ([enrich sample_clock 0 ((raw_record ''OpenAI ab'' [] [])\<lparr>hash := Some ''OpenAI ab''\<rparr>)],
          {''OpenAI ab''}, 1)"
proof -
  have f1: "falsy (hash (raw_record ''OpenAI ab'' [] []))"
    and f2: "falsy (hash (raw_record ''OpenAI a'' ''b'' []))"
    by (simp_all add: raw_fields)
  have c: "get_str (title (raw_record ''OpenAI ab'' [] [])) @ get_str (content (raw_record ''OpenAI ab'' [] []))
     = get_str (title (raw_record ''OpenAI a'' ''b'' [])) @ get_str (content (raw_record ''OpenAI a'' ''b'' []))"
    by (simp add: raw_fields)
  have d: "title (raw_record ''OpenAI ab'' [] []) \<noteq> title (raw_record ''OpenAI a'' ''b'' [])"
    by (simp add: raw_fields)
  have s1: "calculate_relevance_score (raw_record ''OpenAI ab'' [] []) = 5"
    by code_simp
  have s2: "calculate_relevance_score (raw_record ''OpenAI a'' ''b'' []) = 5"
    by code_simp
  have h: "computed_hash sample_md5 (raw_record ''OpenAI ab'' [] []) = ''OpenAI ab''"
    by (simp add: computed_hash_def sample_md5_def raw_fields)
  have p: "calculate_relevance_score (raw_record ''OpenAI ab'' [] []) \<ge> 2 \<and>
           computed_hash sample_md5 (raw_record ''OpenAI ab'' [] []) \<notin> {}"
    using s1 by simp
  have "process_articles sample_md5 sample_clock
       [raw_record ''OpenAI ab'' [] [], raw_record ''OpenAI a'' ''b'' []] {} 0 =
     Inr ([enrich sample_clock 0 ((raw_record ''OpenAI ab'' [] [])
              \<lparr>hash := Some (computed_hash sample_md5 (raw_record ''OpenAI ab'' [] []))\<rparr>)],
          insert (computed_hash sample_md5 (raw_record ''OpenAI ab'' [] [])) {}, 0 + 1)"
    using equal_concatenation_equal_hash
      [OF f1 f2 c, of sample_md5 "{}" "{}" sample_clock "[]" "[]" "{}" 0, THEN conjunct2, THEN conjunct2]
      p by (rule mp)
  then have r: "process_articles sample_md5 sample_clock
       [raw_record ''OpenAI ab'' [] [], raw_record ''OpenAI a'' ''b'' []] {} 0 =
     Inr ([enrich sample_clock 0 ((raw_record ''OpenAI ab'' [] [])\<lparr>hash := Some ''OpenAI ab''\<rparr>)],
          {''OpenAI ab''}, 1)"
    unfolding h by simp
  show ?thesis by (intro conjI f1 f2 c d s1 s2 r)
qed

section \<open>Properties of the near-duplicate pass\<close>

lemma dedup_loop_acc:
  "dedup_loop xs unique seen = unique @ dedup_loop xs [] seen"
proof (induction xs arbitrary: unique seen)
  case Nil
  then show ?case by simp
next
  case (Cons a xs)
  show ?case
  proof (cases "is_near_duplicate (lower_title a) seen")
    case True
    then show ?thesis using Cons.IH [of unique seen] by (simp add: Let_def)
  next
    case False
    then show ?thesis
      using Cons.IH [of "unique @ [a]" "insert (lower_title a) seen"]
        Cons.IH [of "[a]" "insert (lower_title a) seen"]
      by (simp add: Let_def)
  qed
qed

lemma dedup_loop_Cons:
  "dedup_loop (a # xs) [] seen =
     (if is_near_duplicate (lower_title a) seen then dedup_loop xs [] seen
      else a # dedup_loop xs [] (insert (lower_title a) seen))"
  using dedup_loop_acc [of xs "[a]" "insert (lower_title a) seen"] by (simp add: Let_def)

declare dedup_loop.simps(2) [simp del]

lemma dedup_loop_idem:
  "dedup_loop (dedup_loop xs [] seen) [] seen = dedup_loop xs [] seen"
proof (induction xs arbitrary: seen)
  case Nil
  then show ?case by simp
next
  case (Cons a xs)
  show ?case
  proof (cases "is_near_duplicate (lower_title a) seen")
    case True
    then show ?thesis using Cons.IH [of seen] by (simp add: dedup_loop_Cons)
  next
    case False
    then show ?thesis
      using Cons.IH [of "insert (lower_title a) seen"] by (simp add: dedup_loop_Cons)
  qed
qed

text \<open>
  What the loop does with the last article of a batch: it is compared with the titles
  seen before the call and the titles of the articles accepted before it.
\<close>

lemma dedup_loop_snoc:
  "dedup_loop (xs @ [c]) [] seen =
     (if is_near_duplicate (lower_title c) (seen \<union> lower_title ` set (dedup_loop xs [] seen))
      then dedup_loop xs [] seen
      else dedup_loop xs [] seen @ [c])"
proof (induction xs arbitrary: seen)
  case Nil
  then show ?case by (simp add: dedup_loop_Cons)
next
  case (Cons a xs)
  show ?case
  proof (cases "is_near_duplicate (lower_title a) seen")
    case True
    then show ?thesis using Cons.IH [of seen] by (simp add: dedup_loop_Cons)
  next
    case False
    have "insert (lower_title a) seen \<union> lower_title ` set (dedup_loop xs [] (insert (lower_title a) seen))
        = seen \<union> lower_title ` set (a # dedup_loop xs [] (insert (lower_title a) seen))"
      by auto
    with False show ?thesis
      using Cons.IH [of "insert (lower_title a) seen"] by (simp add: dedup_loop_Cons)
  qed
qed

lemma model_today_is_duplicate:
  "deduplicate_articles
     (sample_titles [''OpenAI releases GPT-5 model today'', ''OpenAI releases GPT-5 model''])
   = sample_titles [''OpenAI releases GPT-5 model today'']"
  by code_simp

lemma gemini_is_no_duplicate:
  "deduplicate_articles (sample_titles [''OpenAI releases GPT-5'', ''Google releases Gemini 2''])
   = sample_titles [''OpenAI releases GPT-5'', ''Google releases Gemini 2'']"
  by code_simp

text \<open>
  C5, as the code has it. The near-duplicate pass takes the articles in batch order.
  The words of a title are the word tokens of the lower-cased title, the maximal runs
  of word characters (letters, digits and the underscore), as a set. The last article of a batch is dropped exactly when for some
  article accepted before it the number of words the two titles share, divided by the
  number of words of the candidate (by 1 when it has none), exceeds 0.8; otherwise it
  is appended to the accepted ones. Of "OpenAI releases GPT-5 model today" and "OpenAI
  releases GPT-5 model" the second is dropped; "OpenAI releases GPT-5" and "Google
  releases Gemini 2" are both kept.
\<close>

theorem near_duplicate_rule:
  "deduplicate_articles (pre @ [candidate]) =
     (if \<exists>accepted \<in> set (deduplicate_articles pre).
           4 * max (card (title_word_set (lower_title candidate))) 1
           < 5 * card (title_word_set (lower_title candidate) \<inter>
                       title_word_set (lower_title accepted))
      then deduplicate_articles pre
      else deduplicate_articles pre @ [candidate]) \<and>
   deduplicate_articles
     (sample_titles [''OpenAI releases GPT-5 model today'', ''OpenAI releases GPT-5 model''])
     = sample_titles [''OpenAI releases GPT-5 model today''] \<and>
   deduplicate_articles (sample_titles [''OpenAI releases GPT-5'', ''Google releases Gemini 2''])
     = sample_titles [''OpenAI releases GPT-5'', ''Google releases Gemini 2'']"
  by (intro conjI model_today_is_duplicate gemini_is_no_duplicate)
     (simp add: deduplicate_articles_def dedup_loop_snoc is_near_duplicate_def overlaps_def)

theorem near_duplicate_rule_witness:
  "(\<exists>accepted \<in> set (deduplicate_articles (sample_titles [''OpenAI releases GPT-5 model today''])).
      4 * max (card (title_word_set (lower_title (raw_record ''OpenAI releases GPT-5 model'' [] [])))) 1
      < 5 * card (title_word_set (lower_title (raw_record ''OpenAI releases GPT-5 model'' [] [])) \<inter>
                  title_word_set (lower_title accepted))) \<and>
   deduplicate_articles (sample_titles [''OpenAI releases GPT-5 model today'']
       @ [raw_record ''OpenAI releases GPT-5 model'' [] []])
     = deduplicate_articles (sample_titles [''OpenAI releases GPT-5 model today''])"
proof -
  have c: "\<exists>accepted \<in> set (deduplicate_articles (sample_titles [''OpenAI releases GPT-5 model today''])).
      4 * max (card (title_word_set (lower_title (raw_record ''OpenAI releases GPT-5 model'' [] [])))) 1
      < 5 * card (title_word_set (lower_title (raw_record ''OpenAI releases GPT-5 model'' [] [])) \<inter>
                  title_word_set (lower_title accepted))"
    by code_simp
  have "deduplicate_articles (sample_titles [''OpenAI releases GPT-5 model today'']
       @ [raw_record ''OpenAI releases GPT-5 model'' [] []])
     = deduplicate_articles (sample_titles [''OpenAI releases GPT-5 model today''])"
    using near_duplicate_rule
      [of "sample_titles [''OpenAI releases GPT-5 model today'']"
          "raw_record ''OpenAI releases GPT-5 model'' [] []", THEN conjunct1]
    by (simp only: c if_True)
  with c show ?thesis by (rule conjI)
qed

text \<open>
  C5, as the specification words it, fails: of the titles "gpt_5 launch" and "gpt 5
  launch" the code keeps both, the first having the words "gpt_5" and "launch"; with
  alphanumeric runs for words both titles have the words "gpt", "5" and "launch", and
  the ratio of the second against the first is 1.
\<close>

theorem near_duplicate_underscore_counterexample:
  "deduplicate_articles (sample_titles [''gpt_5 launch'', ''gpt 5 launch''])
     = sample_titles [''gpt_5 launch'', ''gpt 5 launch''] \<and>
   4 * max (card (spec_title_word_set (lower ''gpt 5 launch''))) 1
     < 5 * card (spec_title_word_set (lower ''gpt 5 launch'') \<inter>
                 spec_title_word_set (lower ''gpt_5 launch''))"
  by code_simp

text \<open>
  C9. The near-duplicate pass is idempotent: applied to its own output it returns that
  output, the same articles in the same order.
\<close>

theorem deduplicate_articles_idempotent:
  "deduplicate_articles (deduplicate_articles articles) = deduplicate_articles articles"
  by (simp add: deduplicate_articles_def dedup_loop_idem)

theorem deduplicate_articles_idempotent_witness:
  "deduplicate_articles (deduplicate_articles
     (sample_titles [''OpenAI releases GPT-5 model today'', ''OpenAI releases GPT-5 model'']))
   = sample_titles [''OpenAI releases GPT-5 model today'']"
  using deduplicate_articles_idempotent
    [of "sample_titles [''OpenAI releases GPT-5 model today'', ''OpenAI releases GPT-5 model'']"]
  by (simp only: model_today_is_duplicate)

section \<open>Properties of the date filter\<close>

lemma date_loop_filter:
  "date_loop strptime cutoff articles filtered =
     filtered @ filter (retained strptime cutoff) articles"
  by (induction articles arbitrary: filtered) (auto simp: retained_def split: option.splits)

lemma try_formats_None:
  "try_formats strptime s formats = None \<longleftrightarrow>
     (\<forall>f \<in> set formats. strptime (split_T s) (split_T f) = None)"
  by (induction formats) (auto split: option.splits)

lemma filter_by_date_filter:
  "cutoff_date now days_back = Inr cutoff \<Longrightarrow>
   filter_by_date strptime now articles days_back =
     Inr (filter (retained strptime cutoff) articles)"
  by (simp add: filter_by_date_def date_loop_filter)


lemma sample_cutoff: "cutoff_date sample_now 7 = Inr 63852192000000000"
  by (simp add: cutoff_date_def sample_now_def microseconds_per_day_def datetime_max_def)





text \<open>
  C7, as the code has it. When the cutoff is a time the library can hold, the filter
  returns a list, never an error, and a record of the batch is in that list when every
  attempt the filter makes fails: the text of the date string before its first \<open>T\<close> is
  read by none of the formats cut at their first \<open>T\<close>. A date the filter cannot read is
  not taken for an old one.
\<close>

theorem filter_by_date_fail_open:
  assumes "cutoff_date now days_back = Inr cutoff"
    and "\<forall>date_format \<in> set date_formats.
           strptime (split_T (get_str (date a))) (split_T date_format) = None"
    and "a \<in> set articles"
  shows "\<exists>out. filter_by_date strptime now articles days_back = Inr out \<and> a \<in> set out"
proof -
  from assms(2) have "parse_date strptime a = None"
    by (simp add: parse_date_def try_formats_None)
  then have "retained strptime cutoff a" by (simp add: retained_def)
  with assms(3) have "a \<in> set (filter (retained strptime cutoff) articles)" by simp
  with filter_by_date_filter [OF assms(1)] show ?thesis by blast
qed

theorem filter_by_date_fail_open_witness:
  "cutoff_date sample_now 7 = Inr 63852192000000000 \<and>
   list_all (\<lambda>date_format.
       sample_strptime (split_T (get_str (date (raw_record ''c'' [] ''yesterday''))))
         (split_T date_format) = None) date_formats \<and>
   raw_record ''c'' [] ''yesterday'' \<in> set sample_dated \<and>
   (\<exists>out. filter_by_date sample_strptime sample_now sample_dated 7 = Inr out \<and>
      raw_record ''c'' [] ''yesterday'' \<in> set out)"
proof -
  have u: "list_all (\<lambda>date_format.
       sample_strptime (split_T (get_str (date (raw_record ''c'' [] ''yesterday''))))
         (split_T date_format) = None) date_formats"
    by code_simp
  then have u': "\<forall>date_format \<in> set date_formats.
       sample_strptime (split_T (get_str (date (raw_record ''c'' [] ''yesterday''))))
         (split_T date_format) = None"
    by (simp only: list_all_iff)
  have i: "raw_record ''c'' [] ''yesterday'' \<in> set sample_dated"
    by (simp add: sample_dated_def)
  from filter_by_date_fail_open
    [of sample_now 7 63852192000000000 sample_strptime "raw_record ''c'' [] ''yesterday''"
        sample_dated, OF sample_cutoff u' i]
  have "\<exists>out. filter_by_date sample_strptime sample_now sample_dated 7 = Inr out \<and>
      raw_record ''c'' [] ''yesterday'' \<in> set out" .
  then show ?thesis by (intro conjI sample_cutoff u i)
qed

text \<open>
  C7, as the specification words it, fails: the date string "2019-01-01TBD" is read by
  none of the three formats, and the record is dropped as an old one, the code reading
  "2019-01-01" before the \<open>T\<close>.
\<close>

theorem filter_by_date_prefix_counterexample:
  "cutoff_date sample_now 7 = Inr 63852192000000000 \<and>
   spec_parse_date sample_strptime (raw_record ''e'' [] ''2019-01-01TBD'') = None \<and>
   filter_by_date sample_strptime sample_now [raw_record ''e'' [] ''2019-01-01TBD''] 7 = Inr []"
  by code_simp

section \<open>Properties of the trending topics\<close>

lemma distinct_all_keywords: "distinct all_keywords"
  by code_simp

lemma fold_count_keyword:
  "fold (count_keyword c) ks m = fold increment (filter (\<lambda>k. str_in k c) ks) m"
  by (induction ks arbitrary: m) (simp_all add: count_keyword_def)

lemma count_article_matched: "count_article a m = fold increment (matched a) m"
  by (simp add: count_article_def matched_def ai_keywords_values_def all_keywords_def
      fold_count_keyword Let_def)

lemma keys_increment:
  "map fst (increment k m) = (if k \<in> fst ` set m then map fst m else map fst m @ [k])"
proof (induction m)
  case Nil
  then show ?case by simp
next
  case (Cons p m)
  obtain k' n where p: "p = (k', n)" by (cases p)
  show ?case
  proof (cases "k' = k")
    case True
    with p show ?thesis by simp
  next
    case False
    with p Cons.IH show ?thesis by simp
  qed
qed

lemma key_set_increment: "fst ` set (increment k m) = insert k (fst ` set m)"
proof -
  have "set (map fst (increment k m)) = insert k (set (map fst m))"
    unfolding keys_increment by auto
  then show ?thesis by simp
qed

lemma map_of_increment:
  "map_of (increment k m) k' =
     (if k' = k then Some (case map_of m k of None \<Rightarrow> 1 | Some n \<Rightarrow> n + 1) else map_of m k')"
  by (induction m) auto

lemma keys_fold_increment:
  "distinct ks \<Longrightarrow>
   map fst (fold increment ks m) = map fst m @ filter (\<lambda>k. k \<notin> fst ` set m) ks"
proof (induction ks arbitrary: m)
  case Nil
  then show ?case by simp
next
  case (Cons k ks)
  then have d: "distinct ks" and n: "k \<notin> set ks" by auto
  show ?case
  proof (cases "k \<in> fst ` set m")
    case True
    then have "insert k (fst ` set m) = fst ` set m" by auto
    with True show ?thesis
      using Cons.IH [OF d, of "increment k m"] by (simp add: keys_increment key_set_increment)
  next
    case False
    have "filter (\<lambda>x. x \<noteq> k \<and> x \<notin> fst ` set m) ks = filter (\<lambda>x. x \<notin> fst ` set m) ks"
      using n by (intro filter_cong) auto
    with False show ?thesis
      using Cons.IH [OF d, of "increment k m"] by (simp add: keys_increment key_set_increment)
  qed
qed

lemma map_of_fold_increment:
  "distinct ks \<Longrightarrow>
   map_of (fold increment ks m) k' =
     (if k' \<in> set ks then Some (case map_of m k' of None \<Rightarrow> 1 | Some n \<Rightarrow> n + 1)
      else map_of m k')"
proof (induction ks arbitrary: m)
  case Nil
  then show ?case by simp
next
  case (Cons k ks)
  then have d: "distinct ks" and n: "k \<notin> set ks" by auto
  show ?case
    using Cons.IH [OF d, of "increment k m"] n by (auto simp: map_of_increment)
qed

lemma distinct_matched: "distinct (matched a)"
  by (simp add: matched_def distinct_all_keywords)

lemma set_matched: "set (matched a) = {k \<in> set all_keywords. str_in k (combined_text a)}"
  by (auto simp: matched_def)

lemma count_topics_snoc:
  "count_topics (articles @ [a]) = fold increment (matched a) (count_topics articles)"
  by (simp add: count_topics_def count_article_matched)

lemma article_count_snoc:
  "article_count (articles @ [a]) k =
     article_count articles k + (if str_in k (combined_text a) then 1 else 0)"
  by (simp add: article_count_def)

lemma article_count_nonneg: "0 \<le> article_count articles k"
  by (simp add: article_count_def)

lemma article_count_pos:
  "0 < article_count articles k \<longleftrightarrow> (\<exists>a \<in> set articles. str_in k (combined_text a))"
  by (auto simp: article_count_def filter_empty_conv)

lemma map_of_count_topics:
  "map_of (count_topics articles) k =
     (if k \<in> set all_keywords \<and> 0 < article_count articles k
      then Some (article_count articles k) else None)"
proof (induction articles rule: rev_induct)
  case Nil
  then show ?case by (simp add: count_topics_def article_count_def)
next
  case (snoc a articles)
  have n: "0 \<le> article_count articles k" by (rule article_count_nonneg)
  show ?case
  proof (cases "k \<in> set (matched a)")
    case True
    then have "k \<in> set all_keywords" and "str_in k (combined_text a)"
      by (auto simp: set_matched)
    with True snoc.IH n show ?thesis
      by (auto simp: count_topics_snoc map_of_fold_increment distinct_matched article_count_snoc)
  next
    case False
    then have "k \<in> set all_keywords \<Longrightarrow> \<not> str_in k (combined_text a)"
      by (auto simp: set_matched)
    with False snoc.IH show ?thesis
      by (auto simp: count_topics_snoc map_of_fold_increment distinct_matched article_count_snoc)
  qed
qed

lemma keys_count_topics:
  "fst ` set (count_topics articles) =
     {k \<in> set all_keywords. \<exists>a \<in> set articles. str_in k (combined_text a)}"
proof -
  have "fst ` set (count_topics articles) = dom (map_of (count_topics articles))"
    by (simp add: dom_map_of_conv_image_fst)
  also have "\<dots> = {k \<in> set all_keywords. 0 < article_count articles k}"
    by (auto simp: dom_def map_of_count_topics)
  finally show ?thesis by (simp add: article_count_pos)
qed

lemma keys_count_topics_snoc:
  "map fst (count_topics (articles @ [a])) =
     map fst (count_topics articles) @
     filter (\<lambda>k. k \<notin> fst ` set (count_topics articles)) (matched a)"
  by (simp add: count_topics_snoc keys_fold_increment distinct_matched)

lemma distinct_count_topics: "distinct (map fst (count_topics articles))"
proof (induction articles rule: rev_induct)
  case Nil
  then show ?case by (simp add: count_topics_def)
next
  case (snoc a articles)
  then show ?case
    by (auto simp: keys_count_topics_snoc distinct_matched)
qed

lemma count_topics_entry:
  assumes "(k, n) \<in> set (count_topics articles)"
  shows "n = article_count articles k" and "0 < n" and "k \<in> set all_keywords"
proof -
  from assms distinct_count_topics have "map_of (count_topics articles) k = Some n"
    by simp
  then show "n = article_count articles k" and "0 < n" and "k \<in> set all_keywords"
    by (auto simp: map_of_count_topics split: if_splits)
qed

lemma first_seen_old:
  assumes "\<exists>x \<in> set articles. str_in k (combined_text x)"
  shows "first_seen (articles @ later) k = first_seen articles k"
    and "first_seen articles k < length articles"
proof -
  from assms obtain x where x: "x \<in> set articles" "\<not> \<not> str_in k (combined_text x)" by auto
  then show "first_seen (articles @ later) k = first_seen articles k"
    unfolding first_seen_def by (subst takeWhile_append1) auto
  have "takeWhile (\<lambda>a. \<not> str_in k (combined_text a)) articles \<noteq> articles"
    using x by (auto simp: takeWhile_eq_all_conv)
  then have "length (takeWhile (\<lambda>a. \<not> str_in k (combined_text a)) articles) \<noteq> length articles"
    by (metis takeWhile_eq_take take_all_iff le_refl)
  with length_takeWhile_le [of "\<lambda>a. \<not> str_in k (combined_text a)" articles]
  show "first_seen articles k < length articles"
    unfolding first_seen_def by linarith
qed

lemma first_seen_new:
  assumes "\<forall>x \<in> set articles. \<not> str_in k (combined_text x)" and "str_in k (combined_text a)"
  shows "first_seen (articles @ [a]) k = length articles"
  using assms unfolding first_seen_def by (subst takeWhile_append2) auto

lemma position_sorted:
  "distinct xs \<Longrightarrow>
   sorted_wrt (\<lambda>a b. length (takeWhile (\<lambda>k. k \<noteq> a) xs) < length (takeWhile (\<lambda>k. k \<noteq> b) xs)) xs"
proof (induction xs)
  case Nil
  then show ?case by simp
next
  case (Cons x xs)
  then have d: "distinct xs" and n: "x \<notin> set xs" by auto
  have "sorted_wrt (\<lambda>a b. length (takeWhile (\<lambda>k. k \<noteq> a) (x # xs))
                          < length (takeWhile (\<lambda>k. k \<noteq> b) (x # xs))) xs"
    by (rule sorted_wrt_mono_rel [OF _ Cons.IH [OF d]]) (use n in auto)
  moreover have "\<forall>b \<in> set xs. length (takeWhile (\<lambda>k. k \<noteq> x) (x # xs))
                          < length (takeWhile (\<lambda>k. k \<noteq> b) (x # xs))"
    using n by auto
  ultimately show ?case by simp
qed

lemma tier_position_sorted:
  "sorted_wrt (\<lambda>a b. tier_position a < tier_position b) all_keywords"
  unfolding tier_position_def by (rule position_sorted [OF distinct_all_keywords])

lemma keys_in_encounter_order:
  "sorted_wrt (\<lambda>k1 k2. encounter articles k1 < encounter articles k2)
     (map fst (count_topics articles))"
proof (induction articles rule: rev_induct)
  case Nil
  then show ?case by (simp add: count_topics_def)
next
  case (snoc a articles)
  let ?old = "map fst (count_topics articles)"
  let ?new = "filter (\<lambda>k. k \<notin> fst ` set (count_topics articles)) (matched a)"
  have old: "first_seen (articles @ [a]) k = first_seen articles k \<and>
             first_seen articles k < length articles" if "k \<in> set ?old" for k
  proof -
    from that have "\<exists>x \<in> set articles. str_in k (combined_text x)"
      by (simp add: keys_count_topics)
    then show ?thesis using first_seen_old by blast
  qed
  have new: "first_seen (articles @ [a]) k = length articles" if "k \<in> set ?new" for k
  proof -
    from that have "k \<in> set all_keywords" "str_in k (combined_text a)"
      "k \<notin> fst ` set (count_topics articles)"
      by (auto simp: set_matched)
    then have "\<forall>x \<in> set articles. \<not> str_in k (combined_text x)"
      by (auto simp: keys_count_topics)
    then show ?thesis using \<open>str_in k (combined_text a)\<close> by (rule first_seen_new)
  qed
  have 1: "sorted_wrt (\<lambda>k1 k2. encounter (articles @ [a]) k1 < encounter (articles @ [a]) k2) ?old"
    by (rule sorted_wrt_mono_rel [OF _ snoc.IH]) (simp add: encounter_def old)
  have "sorted_wrt (\<lambda>a b. tier_position a < tier_position b) ?new"
    unfolding matched_def by (intro sorted_wrt_filter tier_position_sorted)
  then have 2: "sorted_wrt (\<lambda>k1 k2. encounter (articles @ [a]) k1 < encounter (articles @ [a]) k2) ?new"
    by (rule sorted_wrt_mono_rel [rotated]) (simp add: encounter_def new)
  have 3: "\<forall>k1 \<in> set ?old. \<forall>k2 \<in> set ?new.
             encounter (articles @ [a]) k1 < encounter (articles @ [a]) k2"
    using old new by (simp add: encounter_def)
  from 1 2 3 show ?case
    unfolding keys_count_topics_snoc sorted_wrt_append by blast
qed

lemma filter_sort_reverse:
  "filter (\<lambda>x. f x = v) (sort_reverse f xs) = filter (\<lambda>x. f x = v) xs"
  by (simp add: sort_reverse_def rev_filter [symmetric] sort_key_stable)

lemma sorted_wrt_classes:
  "(\<And>v. sorted_wrt R (filter (\<lambda>x. f x = v) xs)) \<Longrightarrow>
   sorted_wrt (\<lambda>x y. f x = f y \<longrightarrow> R x y) xs"
proof (induction xs)
  case Nil
  then show ?case by simp
next
  case (Cons x xs)
  have "sorted_wrt R (filter (\<lambda>y. f y = v) xs)" for v
    using Cons.prems [of v] by (cases "f x = v") simp_all
  then have t: "sorted_wrt (\<lambda>x y. f x = f y \<longrightarrow> R x y) xs" by (rule Cons.IH)
  from Cons.prems [of "f x"] have "\<forall>y \<in> set xs. f x = f y \<longrightarrow> R x y" by auto
  with t show ?case by simp
qed

lemma ties_sort_reverse:
  assumes "sorted_wrt R xs"
  shows "sorted_wrt (\<lambda>x y. f x = f y \<longrightarrow> R x y) (sort_reverse f xs)"
proof (rule sorted_wrt_classes)
  fix v
  from assms have "sorted_wrt R (filter (\<lambda>x. f x = v) xs)" by (rule sorted_wrt_filter)
  then show "sorted_wrt R (filter (\<lambda>x. f x = v) (sort_reverse f xs))"
    by (simp only: filter_sort_reverse)
qed

text \<open>
  C6, as the code has it. The extractor returns at most 10 entries of a keyword and its
  count, in descending order of the count; the count of a keyword is the number of
  articles whose combined text contains it; no keyword occurs twice; and of two entries
  with equal counts the one whose keyword was counted first comes first, that is the
  one whose first article comes earlier in the batch and, within one article, the one
  that comes earlier in the tier lists.
\<close>

theorem trending_topics_order:
  "length (get_trending_topics articles) \<le> 10 \<and>
   sorted_wrt (\<lambda>x y. snd x \<ge> snd y) (get_trending_topics articles) \<and>
   (\<forall>(keyword, n) \<in> set (get_trending_topics articles).
      keyword \<in> set all_keywords \<and> 0 < n \<and>
      n = int (length (filter (\<lambda>a. str_in keyword (combined_text a)) articles))) \<and>
   distinct (map fst (get_trending_topics articles)) \<and>
   sorted_wrt (\<lambda>x y. snd x = snd y \<longrightarrow>
        (first_seen articles (fst x), tier_position (fst x))
        < (first_seen articles (fst y), tier_position (fst y)))
     (get_trending_topics articles)"
proof (intro conjI)
  show "length (get_trending_topics articles) \<le> 10"
    by (simp add: get_trending_topics_def)
  show "sorted_wrt (\<lambda>x y. snd x \<ge> snd y) (get_trending_topics articles)"
    unfolding get_trending_topics_def by (intro sorted_wrt_take sorted_sort_reverse)
  have sub: "set (get_trending_topics articles) \<subseteq> set (count_topics articles)"
    unfolding get_trending_topics_def
    using set_take_subset [of 10 "sort_reverse snd (count_topics articles)"]
    by (simp add: set_sort_reverse)
  show "\<forall>(keyword, n) \<in> set (get_trending_topics articles).
      keyword \<in> set all_keywords \<and> 0 < n \<and>
      n = int (length (filter (\<lambda>a. str_in keyword (combined_text a)) articles))"
    using sub count_topics_entry [of _ _ articles] by (auto simp: article_count_def)
  have "distinct (map fst (sort_reverse snd (count_topics articles)))"
    using distinct_count_topics [of articles]
    by (simp add: sort_reverse_def distinct_map)
  then show "distinct (map fst (get_trending_topics articles))"
    unfolding get_trending_topics_def by (simp add: take_map [symmetric])
  have "sorted_wrt (\<lambda>x y. encounter articles (fst x) < encounter articles (fst y))
          (count_topics articles)"
    using keys_in_encounter_order [of articles] by (simp add: sorted_wrt_map)
  then have "sorted_wrt (\<lambda>x y. snd x = snd y \<longrightarrow>
                encounter articles (fst x) < encounter articles (fst y))
          (sort_reverse snd (count_topics articles))"
    by (rule ties_sort_reverse)
  then show "sorted_wrt (\<lambda>x y. snd x = snd y \<longrightarrow>
        (first_seen articles (fst x), tier_position (fst x))
        < (first_seen articles (fst y), tier_position (fst y)))
     (get_trending_topics articles)"
    unfolding get_trending_topics_def encounter_def by (rule sorted_wrt_take)
qed

lemma sample_trending:
  "get_trending_topics (sample_titles [''tech'', ''openai'']) = [(''tech'', 1), (''openai'', 1)]"
  by code_simp

theorem trending_topics_order_witness:
  "get_trending_topics (sample_titles [''tech'', ''openai'']) = [(''tech'', 1), (''openai'', 1)] \<and>
   int (length (filter (\<lambda>a. str_in ''tech'' (combined_text a)) (sample_titles [''tech'', ''openai'']))) = 1 \<and>
   (first_seen (sample_titles [''tech'', ''openai'']) ''tech'', tier_position ''tech'')
   < (first_seen (sample_titles [''tech'', ''openai'']) ''openai'', tier_position ''openai'')"
  using trending_topics_order [of "sample_titles [''tech'', ''openai'']"]
  unfolding sample_trending by simp

text \<open>
  C6, as the specification words it, fails: for a first article titled "tech" and a
  second titled "openai" both keywords have count 1 and "tech" comes first, while
  "openai" precedes "tech" in the tier lists.
\<close>

theorem trending_ties_counterexample:
  "get_trending_topics (sample_titles [''tech'', ''openai'']) = [(''tech'', 1), (''openai'', 1)] \<and>
   tier_position ''openai'' < tier_position ''tech'' \<and>
   \<not> ties_in_tier_order (get_trending_topics (sample_titles [''tech'', ''openai'']))"
  by code_simp

end
